theory Spec2Isabelle
  imports Main "HOL-Library.Word"
begin

section \<open>Video studio front end: polling, editing and export\<close>

text \<open>
  A shallow embedding of the client-side logic of the video studio: the dashboard
  component (\<^verbatim>\<open>video-studio-dashboard.tsx\<close>) and the editor component
  (\<^verbatim>\<open>video-editor.tsx\<close>). Array indices and the \<^verbatim>\<open>order\<close> of a shot are
  natural numbers, a value that may be \<^verbatim>\<open>null\<close> or \<^verbatim>\<open>undefined\<close> is an option,
  and every handler is a function from the response of its HTTP request and the
  component state to the next component state.

  A JavaScript string is a sequence of UTF-16 code units. The text a user types and the
  text of a shot (prompts, scripts, captions), which may be in any script, is a list of
  16-bit words. Identifiers, statuses, URLs and the messages of the code, which the
  handlers only compare with ASCII literals, concatenate or pass on, are character lists.
\<close>

type_synonym code_unit = "16 word"

type_synonym utf16 = "code_unit list"

subsection \<open>JavaScript string and array primitives\<close>

text \<open>
  \<^verbatim>\<open>String.prototype.trim\<close> strips the code units that ECMAScript counts as
  WhiteSpace or LineTerminator: TAB, LF, VT, FF, CR, SP, NBSP, U+1680, U+2000 to U+200A,
  U+2028, U+2029, U+202F, U+205F, U+3000 and U+FEFF. All of them are single code units.
\<close>

definition is_whitespace :: "code_unit \<Rightarrow> bool" where
  "is_whitespace c \<longleftrightarrow>
     c \<in> {0x0009, 0x000A, 0x000B, 0x000C, 0x000D, 0x0020, 0x00A0, 0x1680,
          0x2028, 0x2029, 0x202F, 0x205F, 0x3000, 0xFEFF} \<or>
     (0x2000 \<le> c \<and> c \<le> 0x200A)"

definition trim :: "utf16 \<Rightarrow> utf16" where
  "trim s = rev (dropWhile is_whitespace (rev (dropWhile is_whitespace s)))"

text \<open>A string is truthy when it is not empty.\<close>

definition truthy :: "'a list \<Rightarrow> bool" where
  "truthy s \<longleftrightarrow> s \<noteq> []"

text \<open>
  \<^verbatim>\<open>s.split(sep)\<close> for a separator of one code unit: the pieces between the
  separators, one piece more than there are separators (\<^verbatim>\<open>''.split('\n')\<close> is
  \<^verbatim>\<open>['']\<close>).
\<close>

fun split :: "'a \<Rightarrow> 'a list \<Rightarrow> 'a list list" where
  "split sep [] = [[]]"
| "split sep (c # cs) =
     (if c = sep then [] # split sep cs
      else (case split sep cs of
              [] \<Rightarrow> [[c]]
            | w # ws \<Rightarrow> (c # w) # ws))"

text \<open>\<^verbatim>\<open>pieces.join(sep)\<close>.\<close>

fun join :: "'a \<Rightarrow> 'a list list \<Rightarrow> 'a list" where
  "join sep [] = []"
| "join sep [w] = w"
| "join sep (w # v # ws) = w @ sep # join sep (v # ws)"

text \<open>\<^verbatim>\<open>xs.findIndex(p)\<close>; the result \<^verbatim>\<open>-1\<close> of the source is \<open>None\<close>.\<close>

fun findIndex :: "('a \<Rightarrow> bool) \<Rightarrow> 'a list \<Rightarrow> nat option" where
  "findIndex p [] = None"
| "findIndex p (x # xs) = (if p x then Some 0 else map_option Suc (findIndex p xs))"

subsection \<open>Data model\<close>

text \<open>The \<^verbatim>\<open>Shot\<close> interface of the editor.\<close>

record Shot =
  mood :: string
  order :: nat
  captions :: "utf16 list"
  ai_prompt :: utf16
  shot_timestamp :: string
  video_url :: string
  voiceover_url :: string
  special_effects :: "string list"
  voiceover_script :: utf16
  video_status :: "string option"
  audio_status :: "string option"
  starting_image_url :: "string option"

text \<open>
  The \<^verbatim>\<open>VideoTask\<close> interface of the dashboard. The field \<^verbatim>\<open>id\<close> is \<open>tid\<close>
  here; \<^verbatim>\<open>project_data\<close> is an association list of its string entries.
\<close>

record VideoTask =
  task_id :: string
  tid :: string
  status :: string
  progress :: nat
  created_at :: string
  updated_at :: string
  project_data :: "(string \<times> string) list"
  task_shots :: "Shot list"
  background_music_url :: string
  error :: "string option"

subsection \<open>Caption parsing (\<^verbatim>\<open>handleCaptionUpdate\<close>)\<close>

text \<open>
  \<^verbatim>\<open>editPrompt.split('\n').filter(caption => caption.trim())\<close>
\<close>

definition newCaptions :: "utf16 \<Rightarrow> utf16 list" where
  "newCaptions editPrompt = filter (\<lambda>caption. truthy (trim caption)) (split 0x000A editPrompt)"

text \<open>A line is blank when it consists of whitespace only (the empty line included).\<close>

definition blank :: "utf16 \<Rightarrow> bool" where
  "blank l \<longleftrightarrow> list_all is_whitespace l"

subsection \<open>Merging a bulk-status response (\<^verbatim>\<open>checkAndUpdateTasks\<close>)\<close>

text \<open>
  One turn of the \<^verbatim>\<open>data.forEach\<close> loop: the first local task with the id of the
  updated task is overwritten; an id that is not found changes nothing.
\<close>

definition merge_one :: "VideoTask list \<Rightarrow> VideoTask \<Rightarrow> VideoTask list" where
  "merge_one updatedTasks updatedTask =
     (case findIndex (\<lambda>t. tid t = tid updatedTask) updatedTasks of
        None \<Rightarrow> updatedTasks
      | Some index \<Rightarrow> updatedTasks[index := updatedTask])"

text \<open>The updater passed to \<^verbatim>\<open>setTasks\<close>.\<close>

definition merge_tasks :: "VideoTask list \<Rightarrow> VideoTask list \<Rightarrow> VideoTask list" where
  "merge_tasks prevTasks data = foldl merge_one prevTasks data"

subsection \<open>Export tracks (\<^verbatim>\<open>handleExportVideo\<close>)\<close>

record Keyframe =
  timestamp :: nat
  duration :: nat
  url :: string

record Track =
  track_id :: string
  track_type :: string
  keyframes :: "Keyframe list"

text \<open>
  \<^verbatim>\<open>shots.map((shot, index) => ...)\<close> pairs every shot with its array index.
  Times are in milliseconds.
\<close>

definition videoTrack :: "Shot list \<Rightarrow> Track" where
  "videoTrack shots =
     \<lparr>track_id = ''video-track'', track_type = ''video'',
      keyframes = map (\<lambda>(index, shot).
          \<lparr>timestamp = index * 5000, duration = 5000, url = video_url shot\<rparr>)
        (enumerate 0 shots)\<rparr>"

definition voiceoverTrack :: "string \<Rightarrow> Shot list \<Rightarrow> Track" where
  "voiceoverTrack api_url shots =
     \<lparr>track_id = ''voiceover-track'', track_type = ''audio'',
      keyframes = map (\<lambda>(index, shot).
          \<lparr>timestamp = index * 5000, duration = 5000, url = api_url @ voiceover_url shot\<rparr>)
        (enumerate 0 shots)\<rparr>"

definition musicTrack :: "string \<Rightarrow> Shot list \<Rightarrow> Track" where
  "musicTrack music_url shots =
     \<lparr>track_id = ''background-music'', track_type = ''audio'',
      keyframes = [\<lparr>timestamp = 0, duration = length shots * 5000, url = music_url\<rparr>]\<rparr>"

text \<open>
  The track list of the export request; \<open>music\<close> is \<^verbatim>\<open>task.background_music_url\<close>,
  which may be \<^verbatim>\<open>null\<close>.
\<close>

definition export_tracks :: "string \<Rightarrow> string option \<Rightarrow> Shot list \<Rightarrow> Track list" where
  "export_tracks api_url music shots =
     [videoTrack shots, voiceoverTrack api_url shots] @
     (case music of
        None \<Rightarrow> []
      | Some music_url \<Rightarrow> if truthy music_url then [musicTrack music_url shots] else [])"

text \<open>The end of a track: the latest end of one of its keyframes.\<close>

definition track_end :: "Track \<Rightarrow> nat" where
  "track_end t = foldr (\<lambda>k m. max (timestamp k + duration k) m) (keyframes t) 0"

subsection \<open>Browser environment: timers, console, notifications, HTTP\<close>

text \<open>
  What a handler awaits from \<^verbatim>\<open>fetch\<close>: the promise rejects (network error), the
  response is not \<^verbatim>\<open>ok\<close>, or the JSON body arrives.
\<close>

datatype 'a response = Rejected | NotOk | Ok 'a

datatype toast = ToastSuccess string | ToastError string

text \<open>The body of \<^verbatim>\<open>POST /api/v1/regenerate-shot/{task_id}\<close>.\<close>

record RegenerateBody =
  shot_order :: nat
  regenerate_video :: bool
  regenerate_audio :: bool
  new_video_prompt :: "utf16 option"
  new_voiceover_text :: "utf16 option"
  new_voiceover_url :: "string option"
  body_starting_image_url :: "string option"
  body_language :: string

text \<open>The HTTP requests the two components send.\<close>

datatype request =
    GetVideoTasks
  | PostBulkStatus "string list"
  | DeleteVideoTask string
  | GetVideoTask string
  | PostGenerateImage utf16 string
  | PutUpdateShot string nat string
  | PostGenerateVoiceover string utf16 string
  | PostRegenerateShot string RegenerateBody
  | PutUpdateCaptions string nat "utf16 list"
  | GetVideoExport string
  | GetVideoExportStatus string
  | PostExportVideo "Track list" string

text \<open>
  The environment a component acts on: the intervals alive in the browser, each with its
  callback as it was captured by \<^verbatim>\<open>setInterval\<close>, the next timer id, and the
  logs of \<^verbatim>\<open>console.error\<close>, of \<^verbatim>\<open>toast\<close> and of the requests sent.
  Timer ids are positive, so a ref that holds one is truthy: a ref is \<open>None\<close> while it
  is \<^verbatim>\<open>undefined\<close>.
\<close>

record 'cb Env =
  live :: "(nat \<times> 'cb) list"
  next_id :: nat
  console :: "string list"
  toasts :: "toast list"
  requests :: "request list"

definition setInterval :: "'cb \<Rightarrow> ('cb, 'z) Env_scheme \<Rightarrow> nat \<times> ('cb, 'z) Env_scheme" where
  "setInterval cb s =
     (next_id s, s\<lparr>live := live s @ [(next_id s, cb)], next_id := Suc (next_id s)\<rparr>)"

definition clearInterval :: "nat \<Rightarrow> ('cb, 'z) Env_scheme \<Rightarrow> ('cb, 'z) Env_scheme" where
  "clearInterval i s = s\<lparr>live := filter (\<lambda>(j, cb). j \<noteq> i) (live s)\<rparr>"

definition console_error :: "string \<Rightarrow> ('cb, 'z) Env_scheme \<Rightarrow> ('cb, 'z) Env_scheme" where
  "console_error msg s = s\<lparr>console := console s @ [msg]\<rparr>"

definition toast_success :: "string \<Rightarrow> ('cb, 'z) Env_scheme \<Rightarrow> ('cb, 'z) Env_scheme" where
  "toast_success msg s = s\<lparr>toasts := toasts s @ [ToastSuccess msg]\<rparr>"

definition toast_error :: "string \<Rightarrow> ('cb, 'z) Env_scheme \<Rightarrow> ('cb, 'z) Env_scheme" where
  "toast_error msg s = s\<lparr>toasts := toasts s @ [ToastError msg]\<rparr>"

definition fetch :: "request \<Rightarrow> ('cb, 'z) Env_scheme \<Rightarrow> ('cb, 'z) Env_scheme" where
  "fetch r s = s\<lparr>requests := requests s @ [r]\<rparr>"

subsection \<open>The dashboard component\<close>

text \<open>
  The interval callback \<^verbatim>\<open>checkAndUpdateTasks\<close> is a \<^verbatim>\<open>useCallback\<close> over
  \<^verbatim>\<open>[tasks]\<close>: the closure handed to \<^verbatim>\<open>setInterval\<close> holds the task list of the
  render that created it.
\<close>

datatype dash_callback = CheckAndUpdateTasks "VideoTask list"

text \<open>
  \<open>tasks_changed\<close> records that \<^verbatim>\<open>setTasks\<close> was called with a new array since
  the last render, so that the effect depending on \<^verbatim>\<open>tasks\<close> is due.
\<close>

record Dashboard = "dash_callback Env" +
  tasks :: "VideoTask list"
  tasks_changed :: bool
  isLoading :: bool
  hasIncompleteTask :: bool
  pollingInterval :: "nat option"

definition dashboard_init :: Dashboard where
  "dashboard_init =
     \<lparr>live = [], next_id = 1, console = [], toasts = [], requests = [],
      tasks = [], tasks_changed = False, isLoading = False, hasIncompleteTask = False,
      pollingInterval = None\<rparr>"

definition setTasks :: "VideoTask list \<Rightarrow> Dashboard \<Rightarrow> Dashboard" where
  "setTasks ts s = s\<lparr>tasks := ts, tasks_changed := True\<rparr>"

text \<open>
  \<^verbatim>\<open>if (pollingInterval.current) { clearInterval(pollingInterval.current) }\<close>;
  the ref keeps the id it holds.
\<close>

definition clear_polling :: "Dashboard \<Rightarrow> Dashboard" where
  "clear_polling s = (case pollingInterval s of None \<Rightarrow> s | Some i \<Rightarrow> clearInterval i s)"

definition in_progress :: "string \<Rightarrow> bool" where
  "in_progress st \<longleftrightarrow>
     st = ''PENDING'' \<or> st = ''IN_PROGRESS'' \<or> st = ''PROCESSING'' \<or>
     st = ''GENERATING_SCRIPT'' \<or> st = ''GENERATING_MEDIA''"

definition terminal :: "string \<Rightarrow> bool" where
  "terminal st \<longleftrightarrow> st = ''COMPLETED'' \<or> st = ''FAILED''"

text \<open>\<^verbatim>\<open>fetchTasks\<close>: \<^verbatim>\<open>setTasks(data || [])\<close>, and the empty list on an error.\<close>

definition fetchTasks :: "VideoTask list option response \<Rightarrow> Dashboard \<Rightarrow> Dashboard" where
  "fetchTasks resp s =
     (let s1 = fetch GetVideoTasks (s\<lparr>isLoading := True\<rparr>);
          s2 = (case resp of
                  Ok (Some data) \<Rightarrow> setTasks data s1
                | Ok None \<Rightarrow> setTasks [] s1
                | _ \<Rightarrow> setTasks []
                        (toast_error ''Failed to load video projects. Please try again later.''
                          (console_error ''Error fetching tasks:'' s1)))
      in s2\<lparr>isLoading := False\<rparr>)"

text \<open>
  \<^verbatim>\<open>checkAndUpdateTasks\<close>; \<open>captured\<close> is the \<^verbatim>\<open>tasks\<close> of its closure, while
  the updater of \<^verbatim>\<open>setTasks\<close> works on the current list.
\<close>

definition checkAndUpdateTasks ::
  "VideoTask list \<Rightarrow> VideoTask list option response \<Rightarrow> Dashboard \<Rightarrow> Dashboard" where
  "checkAndUpdateTasks captured resp s =
     (let incompleteTasks = filter (\<lambda>task. in_progress (status task)) captured in
      if length incompleteTasks > 0 then
        (let s1 = fetch (PostBulkStatus (map tid incompleteTasks)) (s\<lparr>hasIncompleteTask := True\<rparr>) in
         case resp of
           Rejected \<Rightarrow> console_error ''Error updating tasks:'' s1
         | NotOk \<Rightarrow> console_error ''Error updating tasks:'' s1
         | Ok None \<Rightarrow> s1
         | Ok (Some data) \<Rightarrow>
             (let s2 = setTasks (merge_tasks (tasks s1) data) s1;
                  allComplete = list_all (\<lambda>task. status task = ''COMPLETED'' \<or> status task = ''FAILED'') data
              in if allComplete then clear_polling (s2\<lparr>hasIncompleteTask := False\<rparr>) else s2))
      else clear_polling (s\<lparr>hasIncompleteTask := False\<rparr>))"

text \<open>The effect over \<^verbatim>\<open>[tasks, checkAndUpdateTasks]\<close> and its cleanup.\<close>

definition tasks_effect :: "Dashboard \<Rightarrow> Dashboard" where
  "tasks_effect s =
     (let incompleteTasks =
            filter (\<lambda>task. status task \<noteq> ''COMPLETED'' \<and> status task \<noteq> ''FAILED'') (tasks s) in
      if length incompleteTasks > 0 then
        (let s1 = clear_polling (s\<lparr>hasIncompleteTask := True\<rparr>);
             (i, s2) = setInterval (CheckAndUpdateTasks (tasks s)) s1
         in s2\<lparr>pollingInterval := Some i\<rparr>)
      else clear_polling (s\<lparr>hasIncompleteTask := False\<rparr>))"

definition tasks_effect_cleanup :: "Dashboard \<Rightarrow> Dashboard" where
  "tasks_effect_cleanup s = clear_polling s"

text \<open>
  A render after a handler: the state updates of a handler are batched and the render
  with its effects comes after the handler has finished. When \<^verbatim>\<open>tasks\<close> has a new
  identity the previous effect is cleaned up and the effect runs again; a change of
  \<^verbatim>\<open>hasIncompleteTask\<close> alone does not run it.
\<close>

definition render :: "Dashboard \<Rightarrow> Dashboard" where
  "render s =
     (if tasks_changed s then tasks_effect (tasks_effect_cleanup (s\<lparr>tasks_changed := False\<rparr>))
      else s)"

text \<open>\<^verbatim>\<open>handleDelete\<close>.\<close>

definition handleDelete :: "string \<Rightarrow> unit response \<Rightarrow> Dashboard \<Rightarrow> Dashboard" where
  "handleDelete taskId resp s =
     (let s1 = fetch (DeleteVideoTask taskId) s in
      case resp of
        Ok _ \<Rightarrow> toast_success ''Project deleted successfully''
                  (setTasks (filter (\<lambda>task. tid task \<noteq> taskId) (tasks s1)) s1)
      | _ \<Rightarrow> toast_error ''Failed to delete project'' (console_error ''Error deleting project:'' s1))"

text \<open>
  What can happen to the mounted dashboard: the task list arrives, the interval with a
  given id fires (only an interval that is alive fires) and its status request is
  answered, or a project is deleted. Each is followed by a render.
\<close>

datatype dash_event =
    TasksFetched "VideoTask list option response"
  | IntervalFired nat "VideoTask list option response"
  | Deleted string "unit response"

fun dash_step :: "Dashboard \<Rightarrow> dash_event \<Rightarrow> Dashboard" where
  "dash_step s (TasksFetched resp) = render (fetchTasks resp s)"
| "dash_step s (IntervalFired i resp) =
     (case map_of (live s) i of
        None \<Rightarrow> s
      | Some (CheckAndUpdateTasks captured) \<Rightarrow> render (checkAndUpdateTasks captured resp s))"
| "dash_step s (Deleted taskId resp) = render (handleDelete taskId resp s)"

definition dash_run :: "dash_event list \<Rightarrow> Dashboard" where
  "dash_run es = foldl dash_step dashboard_init es"

text \<open>A status fetch is scheduled when an interval is alive.\<close>

definition polling :: "('cb, 'z) Env_scheme \<Rightarrow> bool" where
  "polling s \<longleftrightarrow> live s \<noteq> []"

subsection \<open>The editor component\<close>

datatype edit_type = Video | Audio | Caption | Image

fun edit_type_name :: "edit_type \<Rightarrow> string" where
  "edit_type_name Video = ''video''"
| "edit_type_name Audio = ''audio''"
| "edit_type_name Caption = ''caption''"
| "edit_type_name Image = ''image''"

text \<open>
  The two interval callbacks of the editor. \<^verbatim>\<open>checkShotStatus\<close> is a
  \<^verbatim>\<open>useCallback\<close> over \<^verbatim>\<open>[task.task_id, selectedShot]\<close>, so its closure holds the
  selected shot of the render that created it; \<^verbatim>\<open>checkExportStatus\<close> captures no
  state.
\<close>

datatype editor_callback = CheckShotStatus "Shot option" | CheckExportStatus

text \<open>The answer of \<^verbatim>\<open>POST /api/v1/export-video\<close>.\<close>

record ExportResult =
  result_task_id :: string
  result_status :: string

text \<open>The answer of the export status endpoints.\<close>

record ExportData =
  export_status :: string
  export_video_url :: "string option"
  export_error :: "string option"

text \<open>
  The state of a mounted editor. The \<open>prop_\<close> fields are what the handlers read of the
  \<^verbatim>\<open>task\<close> prop (\<^verbatim>\<open>task.task_id\<close>, \<^verbatim>\<open>task.project_data.language\<close>,
  \<^verbatim>\<open>task.background_music_url\<close>) and \<open>api_url\<close> is
  \<^verbatim>\<open>process.env.NEXT_PUBLIC_VIDEO_API_URL\<close>; the ref \<^verbatim>\<open>pollingInterval\<close> of the
  editor is \<open>shotPollingInterval\<close>.
\<close>

record Editor = "editor_callback Env" +
  prop_task_id :: string
  prop_language :: "string option"
  prop_background_music_url :: "string option"
  api_url :: string
  selectedShot :: "Shot option"
  shots :: "Shot list"
  showEditDialog :: bool
  editType :: "edit_type option"
  editPrompt :: utf16
  isRegenerating :: bool
  hasRegeneratingShot :: bool
  isGeneratingImage :: bool
  currentStyle :: string
  shotPollingInterval :: "nat option"
  isExporting :: bool
  exportStatus :: "string option"
  exportPollingInterval :: "nat option"
  showExportDialog :: bool
  exportedVideoUrl :: "string option"
  exportTaskId :: "string option"

definition editor_init :: "string \<Rightarrow> string option \<Rightarrow> string option \<Rightarrow> string \<Rightarrow> Shot list \<Rightarrow> Editor" where
  "editor_init taskId lang music api task_shots0 =
     \<lparr>live = [], next_id = 1, console = [], toasts = [], requests = [],
      prop_task_id = taskId, prop_language = lang, prop_background_music_url = music,
      api_url = api, selectedShot = None, shots = task_shots0, showEditDialog = False,
      editType = None, editPrompt = [], isRegenerating = False, hasRegeneratingShot = False,
      isGeneratingImage = False, currentStyle = ''realistic'', shotPollingInterval = None,
      isExporting = False, exportStatus = None, exportPollingInterval = None,
      showExportDialog = False, exportedVideoUrl = None, exportTaskId = None\<rparr>"

text \<open>\<^verbatim>\<open>task.project_data.language || 'english'\<close>\<close>

definition language :: "Editor \<Rightarrow> string" where
  "language s =
     (case prop_language s of
        None \<Rightarrow> ''english''
      | Some l \<Rightarrow> if truthy l then l else ''english'')"

text \<open>
  \<^verbatim>\<open>const u = updatedShots.find(s => s.order === sel.order); if (u) setSelectedShot(u)\<close>
\<close>

definition reselect :: "Shot \<Rightarrow> Shot list \<Rightarrow> Editor \<Rightarrow> Editor" where
  "reselect sel updatedShots s =
     (case find (\<lambda>sh. order sh = order sel) updatedShots of
        None \<Rightarrow> s
      | Some u \<Rightarrow> s\<lparr>selectedShot := Some u\<rparr>)"

definition clear_shot_polling :: "Editor \<Rightarrow> Editor" where
  "clear_shot_polling s =
     (case shotPollingInterval s of None \<Rightarrow> s | Some i \<Rightarrow> clearInterval i s)"

definition clear_export_polling :: "Editor \<Rightarrow> Editor" where
  "clear_export_polling s =
     (case exportPollingInterval s of None \<Rightarrow> s | Some i \<Rightarrow> clearInterval i s)"

definition regenerating :: "Shot \<Rightarrow> bool" where
  "regenerating shot \<longleftrightarrow>
     video_status shot = Some ''regenerating'' \<or> audio_status shot = Some ''regenerating''"

text \<open>
  \<^verbatim>\<open>checkShotStatus\<close>; \<open>captured\<close> is the \<^verbatim>\<open>selectedShot\<close> of its closure and the
  response body is \<^verbatim>\<open>data.shots\<close>.
\<close>

definition checkShotStatus ::
  "Shot option \<Rightarrow> Shot list option response \<Rightarrow> Editor \<Rightarrow> Editor" where
  "checkShotStatus captured resp s =
     (let s1 = fetch (GetVideoTask (prop_task_id s)) s in
      case resp of
        Rejected \<Rightarrow> console_error ''Error checking shot status:'' s1
      | NotOk \<Rightarrow> console_error ''Error checking shot status:'' s1
      | Ok None \<Rightarrow> s1
      | Ok (Some updatedShots) \<Rightarrow>
          (let hasIncomplete = list_ex regenerating updatedShots;
               s2 = s1\<lparr>shots := updatedShots\<rparr>;
               s3 = (case captured of None \<Rightarrow> s2 | Some sel \<Rightarrow> reselect sel updatedShots s2);
               s4 = s3\<lparr>hasRegeneratingShot := hasIncomplete\<rparr>
           in if \<not> hasIncomplete \<and> shotPollingInterval s4 \<noteq> None
              then toast_success ''Content regenerated successfully'' (clear_shot_polling s4)
              else s4))"

text \<open>\<^verbatim>\<open>handleGenerateImage\<close>: two requests, the image and then the shot update.\<close>

definition handleGenerateImage ::
  "string response \<Rightarrow> Shot list option response \<Rightarrow> Editor \<Rightarrow> Editor" where
  "handleGenerateImage image_resp update_resp s =
     (case selectedShot s of
        None \<Rightarrow> s
      | Some sel \<Rightarrow>
          if \<not> truthy (editPrompt s) then s
          else
            (let failed = (\<lambda>t. toast_error ''Failed to generate starting image''
                                 (console_error ''Error generating image:'' t));
                 s1 = fetch (PostGenerateImage (editPrompt s) (currentStyle s))
                        (s\<lparr>isGeneratingImage := True\<rparr>);
                 s2 = (case image_resp of
                         Rejected \<Rightarrow> failed s1
                       | NotOk \<Rightarrow> failed s1
                       | Ok result_url \<Rightarrow>
                           (let s3 = fetch (PutUpdateShot (prop_task_id s) (order sel) result_url) s1 in
                            case update_resp of
                              Rejected \<Rightarrow> failed s3
                            | NotOk \<Rightarrow> failed s3
                            | Ok None \<Rightarrow> s3
                            | Ok (Some updatedShots) \<Rightarrow>
                                toast_success ''Starting image generated successfully''
                                  (reselect sel updatedShots (s3\<lparr>shots := updatedShots\<rparr>))))
             in s2\<lparr>isGeneratingImage := False\<rparr>))"

text \<open>\<^verbatim>\<open>handleCaptionUpdate\<close>\<close>

definition handleCaptionUpdate :: "Shot list option response \<Rightarrow> Editor \<Rightarrow> Editor" where
  "handleCaptionUpdate resp s =
     (case selectedShot s of
        None \<Rightarrow> s
      | Some sel \<Rightarrow>
          if \<not> truthy (editPrompt s) then s
          else
            (let failed = (\<lambda>t. toast_error ''Failed to update captions''
                                 (console_error ''Error updating captions:'' t));
                 s1 = fetch (PutUpdateCaptions (prop_task_id s) (order sel) (newCaptions (editPrompt s)))
                        (s\<lparr>isRegenerating := True\<rparr>);
                 s2 = (case resp of
                         Rejected \<Rightarrow> failed s1
                       | NotOk \<Rightarrow> failed s1
                       | Ok None \<Rightarrow> s1
                       | Ok (Some updatedShots) \<Rightarrow>
                           toast_success ''Captions updated successfully''
                             (reselect sel updatedShots (s1\<lparr>shots := updatedShots\<rparr>)))
             in s2\<lparr>isRegenerating := False, showEditDialog := False, editPrompt := [],
                   editType := None\<rparr>))"

text \<open>The body of the regeneration request, from the values of the handler's closure.\<close>

definition regenerate_body ::
  "Shot \<Rightarrow> edit_type \<Rightarrow> utf16 \<Rightarrow> string option \<Rightarrow> string \<Rightarrow> RegenerateBody" where
  "regenerate_body sel et prompt voiceover lang =
     \<lparr>shot_order = order sel,
      regenerate_video = (et = Video \<or> et = Image),
      regenerate_audio = (et = Audio),
      new_video_prompt = (if et = Video then Some prompt else None),
      new_voiceover_text = (if et = Audio then Some prompt else None),
      new_voiceover_url = voiceover,
      body_starting_image_url = starting_image_url sel,
      body_language = lang\<rparr>"

text \<open>
  The part of \<^verbatim>\<open>handleRegenerate\<close> from the regeneration request on; \<open>s0\<close> is the
  state of the handler's closure and \<open>s\<close> the state so far.
\<close>

definition regenerate_shot ::
  "Editor \<Rightarrow> Shot \<Rightarrow> edit_type \<Rightarrow> string option \<Rightarrow> unit response \<Rightarrow> Editor \<Rightarrow> Editor" where
  "regenerate_shot s0 sel et voiceover resp s =
     (let failed = (\<lambda>t. (toast_error (''Failed to regenerate '' @ edit_type_name et)
                           (console_error ''Error regenerating shot:'' t))
                         \<lparr>hasRegeneratingShot := False\<rparr>);
          s1 = fetch (PostRegenerateShot (prop_task_id s0)
                        (regenerate_body sel et (editPrompt s0) voiceover (language s0))) s
      in case resp of
           Rejected \<Rightarrow> failed s1
         | NotOk \<Rightarrow> failed s1
         | Ok _ \<Rightarrow>
             (let (i, s2) = setInterval (CheckShotStatus (selectedShot s0)) (clear_shot_polling s1)
              in toast_success (''Started regenerating '' @ edit_type_name et)
                   (s2\<lparr>shotPollingInterval := Some i\<rparr>)))"

text \<open>
  \<^verbatim>\<open>handleRegenerate\<close>, with the responses of the voiceover request (its
  \<^verbatim>\<open>result.url\<close>), of the regeneration request and of the caption update.
\<close>

definition handleRegenerate ::
  "string response \<Rightarrow> unit response \<Rightarrow> Shot list option response \<Rightarrow> Editor \<Rightarrow> Editor" where
  "handleRegenerate voiceover_resp regenerate_resp caption_resp s =
     (case (selectedShot s, editType s) of
        (Some sel, Some et) \<Rightarrow>
          if \<not> truthy (editPrompt s) then s
          else if et = Caption then handleCaptionUpdate caption_resp s
          else
            (let s1 = s\<lparr>showEditDialog := False, isRegenerating := True,
                        hasRegeneratingShot := True, editPrompt := [], editType := None\<rparr>;
                 failed = (\<lambda>t. (toast_error (''Failed to regenerate '' @ edit_type_name et)
                                  (console_error ''Error regenerating shot:'' t))
                                \<lparr>hasRegeneratingShot := False\<rparr>);
                 s2 = (if et = Audio then
                         (let s3 = fetch (PostGenerateVoiceover (prop_task_id s) (editPrompt s)
                                            (language s)) s1 in
                          case voiceover_resp of
                            Rejected \<Rightarrow> failed s3
                          | NotOk \<Rightarrow> failed s3
                          | Ok voiceover \<Rightarrow>
                              regenerate_shot s sel et (Some voiceover) regenerate_resp s3)
                       else regenerate_shot s sel et None regenerate_resp s1)
             in s2\<lparr>isRegenerating := False\<rparr>)
      | _ \<Rightarrow> s)"

text \<open>\<^verbatim>\<open>checkExportStatus\<close>\<close>

definition checkExportStatus :: "ExportData option response \<Rightarrow> Editor \<Rightarrow> Editor" where
  "checkExportStatus resp s =
     (let s1 = fetch (GetVideoExportStatus (prop_task_id s)) s in
      case resp of
        Rejected \<Rightarrow> console_error ''Error checking export status:'' s1
      | NotOk \<Rightarrow> console_error ''Error checking export status:'' s1
      | Ok None \<Rightarrow> s1
      | Ok (Some exportData) \<Rightarrow>
          (let s2 = s1\<lparr>exportStatus := Some (export_status exportData)\<rparr> in
           if export_status exportData = ''COMPLETED'' \<and>
              (case export_video_url exportData of None \<Rightarrow> False | Some u \<Rightarrow> truthy u)
           then toast_success ''Video exported successfully''
                  ((clear_export_polling (s2\<lparr>exportedVideoUrl := export_video_url exportData\<rparr>))
                     \<lparr>isExporting := False\<rparr>)
           else if export_status exportData = ''FAILED''
           then toast_error (''Export failed: '' @
                             (case export_error exportData of
                                None \<Rightarrow> ''Unknown error''
                              | Some e \<Rightarrow> if truthy e then e else ''Unknown error''))
                  ((clear_export_polling s2)\<lparr>isExporting := False, showExportDialog := False\<rparr>)
           else s2))"

text \<open>
  \<^verbatim>\<open>checkExistingExport\<close>, the effect over \<^verbatim>\<open>[exportTaskId]\<close>.
\<close>

definition checkExistingExport :: "ExportData option response \<Rightarrow> Editor \<Rightarrow> Editor" where
  "checkExistingExport resp s =
     (let s1 = fetch (GetVideoExport (prop_task_id s)) s in
      case resp of
        Rejected \<Rightarrow> console_error ''Error checking existing export:'' s1
      | NotOk \<Rightarrow> console_error ''Error checking existing export:'' s1
      | Ok None \<Rightarrow> s1
      | Ok (Some exportData) \<Rightarrow>
          (let s2 = s1\<lparr>exportStatus := Some (export_status exportData)\<rparr> in
           if export_status exportData = ''COMPLETED'' \<and>
              (case export_video_url exportData of None \<Rightarrow> False | Some u \<Rightarrow> truthy u)
           then s2\<lparr>exportedVideoUrl := export_video_url exportData, showExportDialog := True\<rparr>
           else if export_status exportData = ''EXPORTING'' \<or> export_status exportData = ''QUEUED''
           then (let (i, s3) = setInterval CheckExportStatus
                                 (clear_export_polling (s2\<lparr>isExporting := True\<rparr>))
                 in s3\<lparr>exportPollingInterval := Some i\<rparr>)
           else s2))"

text \<open>\<^verbatim>\<open>handleExportVideo\<close>\<close>

definition handleExportVideo :: "ExportResult response \<Rightarrow> Editor \<Rightarrow> Editor" where
  "handleExportVideo resp s =
     (let failed = (\<lambda>t. (toast_error ''Failed to start video export''
                           (console_error ''Error exporting video:'' t))
                         \<lparr>isExporting := False, exportStatus := None, showExportDialog := False\<rparr>);
          s1 = s\<lparr>isExporting := True, exportStatus := Some ''QUEUED'', showExportDialog := True\<rparr>;
          tracks = export_tracks (api_url s) (prop_background_music_url s) (shots s);
          s2 = fetch (PostExportVideo tracks (prop_task_id s)) s1
      in case resp of
           Rejected \<Rightarrow> failed s2
         | NotOk \<Rightarrow> failed s2
         | Ok result \<Rightarrow>
             (let s3 = s2\<lparr>exportTaskId := Some (result_task_id result)\<rparr> in
              if result_status result = ''EXPORTING''
              then (let (i, s4) = setInterval CheckExportStatus (clear_export_polling s3)
                    in toast_success ''Video export started'' (s4\<lparr>exportPollingInterval := Some i\<rparr>))
              else failed s3))"

text \<open>
  Closing the export dialog: the \<^verbatim>\<open>Close\<close> button of its footer, and
  \<^verbatim>\<open>onOpenChange\<close> of the dialog itself.
\<close>

definition closeExportDialog :: "Editor \<Rightarrow> Editor" where
  "closeExportDialog s =
     (let s1 = s\<lparr>showExportDialog := False\<rparr> in
      if \<not> isExporting s then s1\<lparr>exportStatus := None, exportedVideoUrl := None\<rparr> else s1)"

definition exportDialogOpenChange :: "bool \<Rightarrow> Editor \<Rightarrow> Editor" where
  "exportDialogOpenChange opn s = s\<lparr>showExportDialog := opn\<rparr>"

text \<open>The cleanup of the export polling effect, run when the editor unmounts.\<close>

definition export_polling_cleanup :: "Editor \<Rightarrow> Editor" where
  "export_polling_cleanup s = clear_export_polling s"

text \<open>
  What can happen to the mounted editor. The first five events are the state setters
  behind the selection, the edit dialog and its fields; an interval fires only while it
  is alive, and the event carries the answer to the status request of either callback.
\<close>

datatype editor_event =
    SetSelectedShot "Shot option"
  | SetShowEditDialog bool
  | SetEditType "edit_type option"
  | SetEditPrompt utf16
  | SetCurrentStyle string
  | Regenerate "string response" "unit response" "Shot list option response"
  | GenerateImage "string response" "Shot list option response"
  | ExportVideo "ExportResult response"
  | ExistingExportChecked "ExportData option response"
  | CloseExportDialog
  | ExportDialogOpenChange bool
  | EditorIntervalFired nat "Shot list option response" "ExportData option response"

fun editor_step :: "Editor \<Rightarrow> editor_event \<Rightarrow> Editor" where
  "editor_step s (SetSelectedShot sel) = s\<lparr>selectedShot := sel\<rparr>"
| "editor_step s (SetShowEditDialog b) = s\<lparr>showEditDialog := b\<rparr>"
| "editor_step s (SetEditType et) = s\<lparr>editType := et\<rparr>"
| "editor_step s (SetEditPrompt p) = s\<lparr>editPrompt := p\<rparr>"
| "editor_step s (SetCurrentStyle st) = s\<lparr>currentStyle := st\<rparr>"
| "editor_step s (Regenerate v r c) = handleRegenerate v r c s"
| "editor_step s (GenerateImage g u) = handleGenerateImage g u s"
| "editor_step s (ExportVideo r) = handleExportVideo r s"
| "editor_step s (ExistingExportChecked r) = checkExistingExport r s"
| "editor_step s CloseExportDialog = closeExportDialog s"
| "editor_step s (ExportDialogOpenChange b) = exportDialogOpenChange b s"
| "editor_step s (EditorIntervalFired i shot_resp export_resp) =
     (case map_of (live s) i of
        None \<Rightarrow> s
      | Some (CheckShotStatus captured) \<Rightarrow> checkShotStatus captured shot_resp s
      | Some CheckExportStatus \<Rightarrow> checkExportStatus export_resp s)"

definition editor_run :: "Editor \<Rightarrow> editor_event list \<Rightarrow> Editor" where
  "editor_run s0 es = foldl editor_step s0 es"

text \<open>Which of the two status fetches of the editor is scheduled.\<close>

definition shot_polling :: "Editor \<Rightarrow> bool" where
  "shot_polling s \<longleftrightarrow> list_ex (\<lambda>(i, cb). cb \<noteq> CheckExportStatus) (live s)"

definition export_polling :: "Editor \<Rightarrow> bool" where
  "export_polling s \<longleftrightarrow> list_ex (\<lambda>(i, cb). cb = CheckExportStatus) (live s)"

text \<open>The request failed: the promise rejected or the response was not \<^verbatim>\<open>ok\<close>.\<close>

definition fetch_failed :: "'a response \<Rightarrow> bool" where
  "fetch_failed r \<longleftrightarrow> (case r of Ok _ \<Rightarrow> False | _ \<Rightarrow> True)"

text \<open>
  The requests of a regeneration were all answered: the regeneration request, and for an
  audio edit the voiceover request before it.
\<close>

definition regeneration_accepted :: "edit_type \<Rightarrow> string response \<Rightarrow> unit response \<Rightarrow> bool" where
  "regeneration_accepted et voiceover_resp regenerate_resp \<longleftrightarrow>
     \<not> fetch_failed regenerate_resp \<and> (et = Audio \<longrightarrow> \<not> fetch_failed voiceover_resp)"

subsection \<open>Timeline and preview\<close>

text \<open>
  \<^verbatim>\<open>renderTimelineTrack\<close>: \<^verbatim>\<open>start = shot.order * 5\<close> seconds, and a click seeks the
  player to frame \<^verbatim>\<open>start * 30\<close>.
\<close>

definition timeline_start :: "Shot \<Rightarrow> nat" where
  "timeline_start shot = order shot * 5"

definition timeline_end :: "Shot \<Rightarrow> nat" where
  "timeline_end shot = timeline_start shot + 5"

definition seek_frame :: "Shot \<Rightarrow> nat" where
  "seek_frame shot = timeline_start shot * 30"

text \<open>
  The \<^verbatim>\<open>Sequence\<close> of a shot in the player: \<^verbatim>\<open>from = shot.order * 5 * 30\<close>,
  \<^verbatim>\<open>durationInFrames = 5 * 30\<close>.
\<close>

definition sequence_from :: "Shot \<Rightarrow> nat" where
  "sequence_from shot = (order shot * 5) * 30"

definition sequence_durationInFrames :: nat where
  "sequence_durationInFrames = 5 * 30"

text \<open>
  The \<^verbatim>\<open>reduce\<close> that computes \<^verbatim>\<open>totalDuration\<close> labels the shot at array position
  \<open>index\<close> with the slot from \<^verbatim>\<open>index * 5\<close> to \<^verbatim>\<open>index * 5 + 5\<close> seconds.
\<close>

definition slot_start :: "nat \<Rightarrow> nat" where
  "slot_start index = index * 5"

definition slot_end :: "nat \<Rightarrow> nat" where
  "slot_end index = slot_start index + 5"

definition totalDuration :: "Shot list \<Rightarrow> nat" where
  "totalDuration task_shots0 = foldl (\<lambda>acc shot. acc + 5) 0 task_shots0"

text \<open>The order values of the shots are \<open>0, 1, \<dots>, N - 1\<close>, in this sequence.\<close>

definition contiguous_order :: "Shot list \<Rightarrow> bool" where
  "contiguous_order shs \<longleftrightarrow> map order shs = [0..<length shs]"

subsection \<open>The back end behind the single-shot mutations\<close>

text \<open>
  The back-end handlers behind \<^verbatim>\<open>update-captions\<close>,
  \<^verbatim>\<open>update-shot\<close> and the regeneration job, whose code is not part of the front
  end. By the spec a shot is ``regenerated independently of sibling shots'', a request
  ``carries the field being changed (video prompt / voiceover text / captions / starting
  image)'', and the editor is to ``replace local state for matching ids''. A mutation
  therefore rewrites the payload of the shot with the requested order and nothing else.
\<close>

datatype shot_mutation =
    CaptionsUpdated "utf16 list"
  | StartingImageUpdated string
  | RegenerationMerged "string option" "string option" string string

text \<open>
  Modelled from the spec: the change a back-end handler makes to the one shot it is asked
  to change; the \<^verbatim>\<open>order\<close> of the shot is not among the fields a request carries.
\<close>

fun mutate_shot :: "shot_mutation \<Rightarrow> Shot \<Rightarrow> Shot" where
  "mutate_shot (CaptionsUpdated cs) sh = sh\<lparr>captions := cs\<rparr>"
| "mutate_shot (StartingImageUpdated u) sh = sh\<lparr>starting_image_url := Some u\<rparr>"
| "mutate_shot (RegenerationMerged vs as v a) sh =
     sh\<lparr>video_status := vs, audio_status := as, video_url := v, voiceover_url := a\<rparr>"

text \<open>
  Modelled from the spec: the shot list a back-end handler answers with, the shot of the
  requested order changed and its siblings as they were.
\<close>

definition backend_mutate :: "nat \<Rightarrow> shot_mutation \<Rightarrow> Shot list \<Rightarrow> Shot list" where
  "backend_mutate n m shs = map (\<lambda>sh. if order sh = n then mutate_shot m sh else sh) shs"

subsection \<open>Invariants of the timers\<close>

text \<open>
  The dashboard keeps at most one interval alive, the one its ref holds; its closure has
  the current task list; it is alive only while some task is not terminal and always
  while some task is in progress.
\<close>

definition one_interval :: "Dashboard \<Rightarrow> bool" where
  "one_interval s \<longleftrightarrow>
     live s = [] \<or> (pollingInterval s \<noteq> None \<and> map fst (live s) = [the (pollingInterval s)])"

definition dash_inv :: "Dashboard \<Rightarrow> bool" where
  "dash_inv s \<longleftrightarrow>
     \<not> tasks_changed s \<and>
     (live s = [] \<or>
      (pollingInterval s \<noteq> None \<and>
       live s = [(the (pollingInterval s), CheckAndUpdateTasks (tasks s))])) \<and>
     (live s \<noteq> [] \<longrightarrow> (\<exists>t\<in>set (tasks s). \<not> terminal (status t))) \<and>
     ((\<exists>t\<in>set (tasks s). in_progress (status t)) \<longrightarrow> live s \<noteq> [])"

text \<open>Every interval alive in the editor is the one held by the ref of its kind.\<close>

definition editor_inv :: "Editor \<Rightarrow> bool" where
  "editor_inv s \<longleftrightarrow>
     list_all (\<lambda>(i, cb). if cb = CheckExportStatus then exportPollingInterval s = Some i
                          else shotPollingInterval s = Some i) (live s)"

subsection \<open>Sample data\<close>

definition sample_task :: "string \<Rightarrow> string \<Rightarrow> VideoTask" where
  "sample_task i st =
     \<lparr>task_id = i, tid = i, status = st, progress = 0, created_at = [], updated_at = [],
      project_data = [], task_shots = [], background_music_url = [], error = None\<rparr>"

definition sample_shot :: "nat \<Rightarrow> string \<Rightarrow> Shot" where
  "sample_shot n v =
     \<lparr>mood = [], order = n, captions = [], ai_prompt = [], shot_timestamp = [],
      video_url = v, voiceover_url = [], special_effects = [], voiceover_script = [],
      video_status = None, audio_status = None, starting_image_url = None\<rparr>"

definition sample_editor :: "Shot list \<Rightarrow> Editor" where
  "sample_editor shs = editor_init ''t1'' None None ''http://api'' shs"

section \<open>Proofs\<close>

subsection \<open>Strings and task merging\<close>

lemma all_dropWhile: "(\<forall>x\<in>set (dropWhile P s). P x) \<longleftrightarrow> (\<forall>x\<in>set s. P x)"
  by (induction s) auto

lemma trim_empty_iff: "trim s = [] \<longleftrightarrow> list_all is_whitespace s"
  by (simp add: trim_def dropWhile_eq_Nil_conv all_dropWhile list_all_iff)

lemma split_not_Nil: "split sep s \<noteq> []"
  by (induction s) (auto split: list.splits)

lemma join_split: "join sep (split sep s) = s"
proof (induction s)
  case Nil show ?case by simp
next
  case (Cons c cs)
  then show ?case
    by (cases "split sep cs"; cases "tl (split sep cs)") (auto simp: split_not_Nil)
qed

lemma split_no_sep: "l \<in> set (split sep s) \<Longrightarrow> sep \<notin> set l"
  by (induction s arbitrary: l) (auto split: if_splits list.splits)

lemma length_split: "length (split sep s) = Suc (length (filter (\<lambda>c. c = sep) s))"
  by (induction s) (auto split: list.splits)


lemma findIndex_Some: "findIndex p xs = Some i \<Longrightarrow> i < length xs \<and> p (xs ! i) \<and> (\<forall>j<i. \<not> p (xs ! j))"
proof (induction xs arbitrary: i)
  case Nil then show ?case by simp
next
  case (Cons x xs)
  then show ?case
    by (auto split: if_splits simp: nth_Cons split: nat.splits)
qed

lemma findIndex_None: "findIndex p xs = None \<longleftrightarrow> (\<forall>x\<in>set xs. \<not> p x)"
  by (induction xs) auto

lemma map_tid_merge_one: "map tid (merge_one ts u) = map tid ts"
  by (auto simp: merge_one_def map_update list_update_same_conv split: option.splits dest!: findIndex_Some)

lemma length_merge_one: "length (merge_one ts u) = length ts"
  by (simp add: merge_one_def split: option.splits)

lemma map_tid_merge_tasks: "map tid (merge_tasks ts data) = map tid ts"
  unfolding merge_tasks_def
  by (induction data arbitrary: ts) (simp_all add: map_tid_merge_one)

lemma merge_one_frame:
  "i < length ts \<Longrightarrow> tid (ts ! i) \<noteq> tid u \<Longrightarrow> merge_one ts u ! i = ts ! i"
  by (auto simp: merge_one_def nth_list_update split: option.splits dest: findIndex_Some)

lemma merge_tasks_untouched:
  "i < length ts \<Longrightarrow> tid (ts ! i) \<notin> tid ` set data \<Longrightarrow> merge_tasks ts data ! i = ts ! i"
  unfolding merge_tasks_def
proof (induction data arbitrary: ts)
  case Nil then show ?case by simp
next
  case (Cons u data)
  have "foldl merge_one (merge_one ts u) data ! i = merge_one ts u ! i"
    using Cons.prems by (intro Cons.IH) (simp_all add: length_merge_one merge_one_frame)
  then show ?case using Cons.prems by (simp add: merge_one_frame)
qed

lemma merge_one_cases: "i < length ts \<Longrightarrow> merge_one ts u ! i = ts ! i \<or> merge_one ts u ! i = u \<and> tid (ts ! i) = tid u"
  by (auto simp: merge_one_def nth_list_update split: option.splits if_splits dest: findIndex_Some)

lemma merge_tasks_cases:
  "i < length ts \<Longrightarrow> merge_tasks ts data ! i = ts ! i \<or> (merge_tasks ts data ! i \<in> set data \<and> tid (merge_tasks ts data ! i) = tid (ts ! i))"
  unfolding merge_tasks_def
proof (induction data arbitrary: ts)
  case Nil then show ?case by simp
next
  case (Cons u data)
  have len: "i < length (merge_one ts u)" using Cons.prems by (simp add: length_merge_one)
  from Cons.IH[OF len] merge_one_cases[OF Cons.prems, of u]
  show ?case by auto 
qed

lemma findIndex_distinct:
  "distinct (map f xs) \<Longrightarrow> i < length xs \<Longrightarrow> findIndex (\<lambda>t. f t = f (xs ! i)) xs = Some i"
proof (induction xs arbitrary: i)
  case Nil then show ?case by simp
next
  case (Cons x xs)
  show ?case
  proof (cases i)
    case 0 then show ?thesis by simp
  next
    case (Suc j)
    then have "f x \<noteq> f (xs ! j)" using Cons.prems by (auto simp: image_iff)
    then show ?thesis using Suc Cons by simp
  qed
qed

lemma merge_one_hit:
  "distinct (map tid ts) \<Longrightarrow> i < length ts \<Longrightarrow> tid u = tid (ts ! i) \<Longrightarrow> merge_one ts u ! i = u"
  using findIndex_distinct[of tid ts i] by (simp add: merge_one_def)

lemma merge_tasks_stays_in:
  "i < length ts \<Longrightarrow> ts ! i \<in> D \<Longrightarrow> set data \<subseteq> D \<Longrightarrow> merge_tasks ts data ! i \<in> D"
  unfolding merge_tasks_def
proof (induction data arbitrary: ts)
  case Nil then show ?case by simp
next
  case (Cons u data)
  have "merge_one ts u ! i \<in> D"
    using merge_one_cases[OF Cons.prems(1), of u] Cons.prems by auto
  then show ?case using Cons.prems by (simp add: Cons.IH length_merge_one)
qed

lemma merge_tasks_replaced:
  "distinct (map tid ts) \<Longrightarrow> i < length ts \<Longrightarrow> tid (ts ! i) \<in> tid ` set data \<Longrightarrow>
   merge_tasks ts data ! i \<in> set data"
proof (induction data arbitrary: ts)
  case Nil then show ?case by simp
next
  case (Cons u data)
  have step: "merge_tasks ts (u # data) = merge_tasks (merge_one ts u) data"
    by (simp add: merge_tasks_def)
  have len: "i < length (merge_one ts u)" using Cons.prems by (simp add: length_merge_one)
  show ?case
  proof (cases "tid u = tid (ts ! i)")
    case True
    then have "merge_one ts u ! i = u" using Cons.prems by (simp add: merge_one_hit)
    then show ?thesis unfolding step
      using merge_tasks_stays_in[OF len, of "set (u # data)" data] by auto
  next
    case False
    then have "tid (ts ! i) \<in> tid ` set data" using Cons.prems by auto
    moreover have "merge_one ts u ! i = ts ! i"
      using False Cons.prems by (simp add: merge_one_frame)
    moreover have "distinct (map tid (merge_one ts u))"
      using Cons.prems by (simp add: map_tid_merge_one)
    ultimately have "merge_tasks (merge_one ts u) data ! i \<in> set data"
      using Cons.IH[OF _ len] by simp
    then show ?thesis unfolding step by simp
  qed
qed

lemma merge_tasks_all_terminal:
  assumes d: "distinct (map tid ts)"
    and cov: "\<forall>t\<in>set ts. \<not> terminal (status t) \<longrightarrow> tid t \<in> tid ` set data"
    and tm: "list_all (\<lambda>t. terminal (status t)) data"
  shows "list_all (\<lambda>t. terminal (status t)) (merge_tasks ts data)"
proof -
  have len: "length (merge_tasks ts data) = length ts"
    using map_tid_merge_tasks[of ts data] by (metis length_map)
  have "terminal (status (merge_tasks ts data ! i))" if i: "i < length ts" for i
  proof (cases "tid (ts ! i) \<in> tid ` set data")
    case True
    from merge_tasks_replaced[OF d i True] tm show ?thesis by (simp add: list_all_iff)
  next
    case False
    then have "terminal (status (ts ! i))" using cov i by auto
    then show ?thesis using merge_tasks_untouched[OF i False] by simp
  qed
  then show ?thesis using len by (simp add: list_all_length)
qed

subsection \<open>The dashboard keeps its invariant\<close>

lemma in_progress_not_terminal: "in_progress st \<Longrightarrow> \<not> terminal st"
  by (auto simp: in_progress_def terminal_def)

lemma one_interval_clear: "one_interval s \<Longrightarrow> live (clear_polling s) = []"
  by (auto simp: one_interval_def clear_polling_def clearInterval_def split: option.splits)

lemma clear_polling_fields [simp]:
  "tasks (clear_polling s) = tasks s"
  "tasks_changed (clear_polling s) = tasks_changed s"
  "pollingInterval (clear_polling s) = pollingInterval s"
  "next_id (clear_polling s) = next_id s"
  "console (clear_polling s) = console s"
  "requests (clear_polling s) = requests s"
  "toasts (clear_polling s) = toasts s"
  by (simp_all add: clear_polling_def clearInterval_def split: option.splits)

lemma one_interval_upd [simp]:
  "one_interval (s\<lparr>tasks_changed := b\<rparr>) = one_interval s"
  "one_interval (s\<lparr>hasIncompleteTask := b\<rparr>) = one_interval s"
  "one_interval (s\<lparr>tasks := ts\<rparr>) = one_interval s"
  "one_interval (s\<lparr>isLoading := b\<rparr>) = one_interval s"
  "one_interval (s\<lparr>requests := rq\<rparr>) = one_interval s"
  "one_interval (s\<lparr>console := c\<rparr>) = one_interval s"
  "one_interval (s\<lparr>toasts := tt\<rparr>) = one_interval s"
  by (simp_all add: one_interval_def)

lemma one_interval_clear_polling: "one_interval s \<Longrightarrow> one_interval (clear_polling s)"
  by (auto simp: one_interval_def clear_polling_def clearInterval_def split: option.splits)

lemma clear_polling_upd [simp]:
  "clear_polling (s\<lparr>hasIncompleteTask := b\<rparr>) = (clear_polling s)\<lparr>hasIncompleteTask := b\<rparr>"
  "clear_polling (s\<lparr>tasks_changed := b\<rparr>) = (clear_polling s)\<lparr>tasks_changed := b\<rparr>"
  by (simp_all add: clear_polling_def clearInterval_def split: option.splits)

lemma render_inv:
  assumes "one_interval s" "tasks_changed s"
  shows "dash_inv (render s)"
proof -
  have c: "live (clear_polling s) = []" using assms(1) by (rule one_interval_clear)
  have cc: "live (clear_polling (clear_polling s)) = []"
    using assms(1) by (intro one_interval_clear one_interval_clear_polling)
  show ?thesis
  proof (cases "\<exists>t\<in>set (tasks s). \<not> terminal (status t)")
    case True
    then have f: "filter (\<lambda>task. status task \<noteq> ''COMPLETED'' \<and> status task \<noteq> ''FAILED'') (tasks s) \<noteq> []"
      by (auto simp: filter_empty_conv terminal_def)
    show ?thesis using assms(2) True f c cc
      by (simp add: render_def tasks_effect_def tasks_effect_cleanup_def setInterval_def dash_inv_def Let_def
          clear_polling_def[of "clear_polling _"] clearInterval_def split: option.splits)
  next
    case False
    then have f: "filter (\<lambda>task. status task \<noteq> ''COMPLETED'' \<and> status task \<noteq> ''FAILED'') (tasks s) = []"
      by (auto simp: filter_empty_conv terminal_def)
    have "\<not> (\<exists>t\<in>set (tasks s). in_progress (status t))"
      using False in_progress_not_terminal by blast
    then show ?thesis using assms(2) False f c cc
      by (auto simp add: render_def tasks_effect_def tasks_effect_cleanup_def dash_inv_def Let_def split: option.splits)
  qed
qed

lemma dash_inv_one_interval: "dash_inv s \<Longrightarrow> one_interval s"
  by (auto simp: dash_inv_def one_interval_def split: option.splits)

lemma fetchTasks_inv: "dash_inv s \<Longrightarrow> dash_inv (render (fetchTasks resp s))"
  by (rule render_inv)
     (auto dest!: dash_inv_one_interval simp: fetchTasks_def setTasks_def fetch_def toast_error_def console_error_def Let_def
       split: response.splits option.splits)

lemma handleDelete_inv: "dash_inv s \<Longrightarrow> dash_inv (render (handleDelete taskId resp s))"
proof (cases resp)
  case (Ok u)
  assume "dash_inv s"
  then show ?thesis unfolding Ok
    by (intro render_inv)
       (auto dest!: dash_inv_one_interval simp: handleDelete_def setTasks_def fetch_def toast_success_def Let_def)
qed (auto simp: handleDelete_def render_def fetch_def toast_error_def console_error_def dash_inv_def Let_def)

lemma tick_inv:
  assumes "dash_inv s"
  shows "dash_inv (render (checkAndUpdateTasks (tasks s) resp s))"
proof (cases "\<exists>t\<in>set (tasks s). in_progress (status t)")
  case False
  then have f: "filter (\<lambda>task. in_progress (status task)) (tasks s) = []"
    by (auto simp: filter_empty_conv)
  have "live (clear_polling s) = []"
    using assms by (intro one_interval_clear dash_inv_one_interval)
  then show ?thesis using assms False f
    by (auto simp: checkAndUpdateTasks_def render_def dash_inv_def split: option.splits)
next
  case True
  then have f: "filter (\<lambda>task. in_progress (status task)) (tasks s) \<noteq> []"
    by (auto simp: filter_empty_conv)
  show ?thesis
  proof (cases "\<exists>data. resp = Ok (Some data)")
    case False
    then have "resp = Rejected \<or> resp = NotOk \<or> resp = Ok None"
      by (cases resp) auto
    then show ?thesis using assms f
      by (auto simp: checkAndUpdateTasks_def render_def dash_inv_def fetch_def console_error_def Let_def)
  next
    case True
    then obtain data where r: "resp = Ok (Some data)" by blast
    show ?thesis unfolding r using f dash_inv_one_interval[OF assms]
      by (intro render_inv)
         (auto simp: checkAndUpdateTasks_def Let_def setTasks_def fetch_def one_interval_clear_polling)
  qed
qed

lemma dash_step_inv: "dash_inv s \<Longrightarrow> dash_inv (dash_step s e)"
proof (cases e)
  case (IntervalFired i resp)
  assume inv: "dash_inv s"
  show ?thesis
  proof (cases "map_of (live s) i")
    case None
    then show ?thesis using inv IntervalFired by simp
  next
    case (Some cb)
    then have "cb = CheckAndUpdateTasks (tasks s)"
      using inv by (auto simp: dash_inv_def split: if_splits)
    then show ?thesis using Some IntervalFired tick_inv[OF inv] by simp
  qed
qed (simp_all add: fetchTasks_inv handleDelete_inv)

lemma dash_init_inv: "dash_inv dashboard_init"
  by (simp add: dash_inv_def dashboard_init_def)

lemma dash_run_inv: "dash_inv (dash_run es)"
  unfolding dash_run_def
  by (induction es rule: rev_induct) (simp_all add: dash_init_inv dash_step_inv)

lemma render_fields [simp]:
  "tasks (render s) = tasks s"
  "requests (render s) = requests s"
  "console (render s) = console s"
  by (simp_all add: render_def tasks_effect_def tasks_effect_cleanup_def setInterval_def Let_def
        split: prod.splits)

lemma render_effect:
  assumes "one_interval s" "tasks_changed s"
  shows "live (render s) =
           (if list_all (\<lambda>t. terminal (status t)) (tasks s) then []
            else [(next_id s, CheckAndUpdateTasks (tasks s))])"
proof -
  have cc: "live (clear_polling (clear_polling s)) = []"
    using assms(1) by (intro one_interval_clear one_interval_clear_polling)
  show ?thesis
  proof (cases "list_all (\<lambda>t. terminal (status t)) (tasks s)")
    case True
    then have "filter (\<lambda>task. status task \<noteq> ''COMPLETED'' \<and> status task \<noteq> ''FAILED'') (tasks s) = []"
      by (auto simp: filter_empty_conv terminal_def list_all_iff)
    then show ?thesis using assms(2) True cc
      by (simp add: render_def tasks_effect_def tasks_effect_cleanup_def Let_def)
  next
    case False
    then have "filter (\<lambda>task. status task \<noteq> ''COMPLETED'' \<and> status task \<noteq> ''FAILED'') (tasks s) \<noteq> []"
      by (auto simp: filter_empty_conv terminal_def list_all_iff)
    then show ?thesis using assms(2) False cc
      by (simp add: render_def tasks_effect_def tasks_effect_cleanup_def setInterval_def Let_def)
  qed
qed

lemma dash_run_snoc: "dash_run (es @ [e]) = dash_step (dash_run es) e"
  by (simp add: dash_run_def)

lemma tick_answered:
  assumes inv: "dash_inv s" and ip: "\<exists>t\<in>set (tasks s). in_progress (status t)"
  shows "tasks (render (checkAndUpdateTasks (tasks s) (Ok (Some data)) s)) = merge_tasks (tasks s) data"
    and "live (render (checkAndUpdateTasks (tasks s) (Ok (Some data)) s)) =
           (if list_all (\<lambda>t. terminal (status t)) (merge_tasks (tasks s) data) then []
            else [(next_id s, CheckAndUpdateTasks (merge_tasks (tasks s) data))])"
proof -
  let ?x = "checkAndUpdateTasks (tasks s) (Ok (Some data)) s"
  have f: "filter (\<lambda>task. in_progress (status task)) (tasks s) \<noteq> []"
    using ip by (auto simp: filter_empty_conv)
  have x: "tasks ?x = merge_tasks (tasks s) data" "tasks_changed ?x" "next_id ?x = next_id s"
    using f by (simp_all add: checkAndUpdateTasks_def Let_def setTasks_def fetch_def)
  have o: "one_interval ?x"
    using f dash_inv_one_interval[OF inv]
    by (auto simp: checkAndUpdateTasks_def Let_def setTasks_def fetch_def one_interval_clear_polling)
  show "tasks (render ?x) = merge_tasks (tasks s) data" using x by simp
  show "live (render ?x) =
           (if list_all (\<lambda>t. terminal (status t)) (merge_tasks (tasks s) data) then []
            else [(next_id s, CheckAndUpdateTasks (merge_tasks (tasks s) data))])"
    using render_effect[OF o x(2)] x by simp
qed

lemma tick_requests:
  assumes ip: "\<exists>t\<in>set (tasks s). in_progress (status t)"
  shows "requests (checkAndUpdateTasks (tasks s) resp s) =
           requests s @ [PostBulkStatus (map tid (filter (\<lambda>t. in_progress (status t)) (tasks s)))]"
proof -
  have f: "filter (\<lambda>task. in_progress (status task)) (tasks s) \<noteq> []"
    using ip by (auto simp: filter_empty_conv)
  show ?thesis using f
    by (auto simp: checkAndUpdateTasks_def Let_def setTasks_def fetch_def console_error_def
          split: response.splits option.splits)
qed

lemma tick_unanswered:
  assumes inv: "dash_inv s" and ip: "\<exists>t\<in>set (tasks s). in_progress (status t)"
    and r: "fetch_failed resp \<or> resp = Ok None"
  shows "tasks (render (checkAndUpdateTasks (tasks s) resp s)) = tasks s \<and>
         live (render (checkAndUpdateTasks (tasks s) resp s)) = live s"
proof -
  have f: "filter (\<lambda>task. in_progress (status task)) (tasks s) \<noteq> []"
    using ip by (auto simp: filter_empty_conv)
  have "\<not> tasks_changed s" using inv by (simp add: dash_inv_def)
  then show ?thesis using f r
    by (cases resp)
       (auto simp: checkAndUpdateTasks_def Let_def fetch_def console_error_def render_def fetch_failed_def)
qed

lemma tick_idle:
  assumes inv: "dash_inv s" and ip: "\<not> (\<exists>t\<in>set (tasks s). in_progress (status t))"
  shows "live (render (checkAndUpdateTasks (tasks s) resp s)) = [] \<and>
         requests (render (checkAndUpdateTasks (tasks s) resp s)) = requests s \<and>
         tasks (render (checkAndUpdateTasks (tasks s) resp s)) = tasks s"
proof -
  have f: "filter (\<lambda>task. in_progress (status task)) (tasks s) = []"
    using ip by (auto simp: filter_empty_conv)
  have c: "live (clear_polling s) = []"
    using inv by (intro one_interval_clear dash_inv_one_interval)
  have "\<not> tasks_changed s" using inv by (simp add: dash_inv_def)
  then show ?thesis using f c
    by (simp add: checkAndUpdateTasks_def render_def)
qed

lemma alive_interval:
  assumes inv: "dash_inv s" and a: "map_of (live s) i \<noteq> None"
  shows "dash_step s (IntervalFired i resp) = render (checkAndUpdateTasks (tasks s) resp s)"
    and "live s \<noteq> []"
  using assms by (auto simp: dash_inv_def split: if_splits)

subsection \<open>The editor keeps its invariant\<close>

lemma editor_inv_iff:
  "editor_inv s \<longleftrightarrow>
     (\<forall>i cb. (i, cb) \<in> set (live s) \<longrightarrow>
        (cb = CheckExportStatus \<longrightarrow> exportPollingInterval s = Some i) \<and>
        (cb \<noteq> CheckExportStatus \<longrightarrow> shotPollingInterval s = Some i))"
  unfolding editor_inv_def list_all_iff by (auto split: prod.splits)

lemma editor_invI:
  assumes "editor_inv s"
    and "set (live s') \<subseteq> set (live s)"
    and "exportPollingInterval s' = exportPollingInterval s"
    and "shotPollingInterval s' = shotPollingInterval s"
  shows "editor_inv s'"
  using assms unfolding editor_inv_iff by (metis subsetD)

lemma reselect_fields [simp]:
  "live (reselect sel us s) = live s"
  "next_id (reselect sel us s) = next_id s"
  "requests (reselect sel us s) = requests s"
  "console (reselect sel us s) = console s"
  "toasts (reselect sel us s) = toasts s"
  "shots (reselect sel us s) = shots s"
  "shotPollingInterval (reselect sel us s) = shotPollingInterval s"
  "exportPollingInterval (reselect sel us s) = exportPollingInterval s"
  by (simp_all add: reselect_def split: option.splits)

lemma clear_shot_fields [simp]:
  "next_id (clear_shot_polling s) = next_id s"
  "requests (clear_shot_polling s) = requests s"
  "console (clear_shot_polling s) = console s"
  "toasts (clear_shot_polling s) = toasts s"
  "shots (clear_shot_polling s) = shots s"
  "shotPollingInterval (clear_shot_polling s) = shotPollingInterval s"
  "exportPollingInterval (clear_shot_polling s) = exportPollingInterval s"
  by (simp_all add: clear_shot_polling_def clearInterval_def split: option.splits)

lemma clear_export_fields [simp]:
  "next_id (clear_export_polling s) = next_id s"
  "requests (clear_export_polling s) = requests s"
  "console (clear_export_polling s) = console s"
  "toasts (clear_export_polling s) = toasts s"
  "shots (clear_export_polling s) = shots s"
  "shotPollingInterval (clear_export_polling s) = shotPollingInterval s"
  "exportPollingInterval (clear_export_polling s) = exportPollingInterval s"
  by (simp_all add: clear_export_polling_def clearInterval_def split: option.splits)

lemma live_clear_shot:
  "live (clear_shot_polling s) = filter (\<lambda>(j, cb). Some j \<noteq> shotPollingInterval s) (live s)"
  by (auto simp: clear_shot_polling_def clearInterval_def split: option.splits intro: filter_cong)

lemma live_clear_export:
  "live (clear_export_polling s) = filter (\<lambda>(j, cb). Some j \<noteq> exportPollingInterval s) (live s)"
  by (auto simp: clear_export_polling_def clearInterval_def split: option.splits intro: filter_cong)

lemma clear_export_polling_eq:
  "clear_export_polling s =
     s\<lparr>live := filter (\<lambda>(j, cb). Some j \<noteq> exportPollingInterval s) (live s)\<rparr>"
  by (cases "exportPollingInterval s")
     (auto simp: clear_export_polling_def clearInterval_def intro: filter_cong arg_cong[where f="\<lambda>l. s\<lparr>live := l\<rparr>"])

lemma clear_shot_polling_eq:
  "clear_shot_polling s =
     s\<lparr>live := filter (\<lambda>(j, cb). Some j \<noteq> shotPollingInterval s) (live s)\<rparr>"
  by (cases "shotPollingInterval s")
     (auto simp: clear_shot_polling_def clearInterval_def intro: filter_cong arg_cong[where f="\<lambda>l. s\<lparr>live := l\<rparr>"])

lemmas env_defs = fetch_def console_error_def toast_error_def toast_success_def

lemma checkShotStatus_inv: "editor_inv s \<Longrightarrow> editor_inv (checkShotStatus c r s)"
  by (erule editor_invI)
     (auto simp: checkShotStatus_def env_defs Let_def live_clear_shot split: response.splits option.splits)

lemma checkExportStatus_inv: "editor_inv s \<Longrightarrow> editor_inv (checkExportStatus r s)"
  by (erule editor_invI)
     (auto simp: checkExportStatus_def env_defs Let_def live_clear_export split: response.splits option.splits)

lemma handleCaptionUpdate_inv: "editor_inv s \<Longrightarrow> editor_inv (handleCaptionUpdate r s)"
  by (erule editor_invI)
     (auto simp: handleCaptionUpdate_def env_defs Let_def split: response.splits option.splits)

lemma handleGenerateImage_inv: "editor_inv s \<Longrightarrow> editor_inv (handleGenerateImage g u s)"
  by (erule editor_invI)
     (auto simp: handleGenerateImage_def env_defs Let_def split: response.splits option.splits)

lemma live_clear_export_upd [simp]:
  "live (clear_export_polling (s\<lparr>isExporting := b\<rparr>)) = live (clear_export_polling s)"
  by (simp add: live_clear_export)

lemma closeExportDialog_inv: "editor_inv s \<Longrightarrow> editor_inv (closeExportDialog s)"
  by (erule editor_invI) (auto simp: closeExportDialog_def Let_def)

lemma start_export_inv:
  assumes "editor_inv s" "setInterval CheckExportStatus (clear_export_polling s) = (i, s')"
  shows "editor_inv (s'\<lparr>exportPollingInterval := Some i\<rparr>)"
  using assms unfolding editor_inv_iff setInterval_def
  by (auto simp: live_clear_export)

lemma start_shot_inv:
  assumes "editor_inv s" "setInterval (CheckShotStatus c) (clear_shot_polling s) = (i, s')"
  shows "editor_inv (s'\<lparr>shotPollingInterval := Some i\<rparr>)"
  using assms unfolding editor_inv_iff setInterval_def
  by (auto simp: live_clear_shot)

lemma editor_inv_upd [simp]:
  "editor_inv (s\<lparr>requests := a1\<rparr>) = editor_inv s"
  "editor_inv (s\<lparr>console := a2\<rparr>) = editor_inv s"
  "editor_inv (s\<lparr>toasts := a3\<rparr>) = editor_inv s"
  "editor_inv (s\<lparr>isExporting := a4\<rparr>) = editor_inv s"
  "editor_inv (s\<lparr>exportStatus := a5\<rparr>) = editor_inv s"
  "editor_inv (s\<lparr>showExportDialog := a6\<rparr>) = editor_inv s"
  "editor_inv (s\<lparr>exportTaskId := a7\<rparr>) = editor_inv s"
  "editor_inv (s\<lparr>exportedVideoUrl := a8\<rparr>) = editor_inv s"
  "editor_inv (s\<lparr>showEditDialog := a9\<rparr>) = editor_inv s"
  "editor_inv (s\<lparr>isRegenerating := b1\<rparr>) = editor_inv s"
  "editor_inv (s\<lparr>hasRegeneratingShot := b2\<rparr>) = editor_inv s"
  "editor_inv (s\<lparr>editPrompt := b3\<rparr>) = editor_inv s"
  "editor_inv (s\<lparr>editType := b4\<rparr>) = editor_inv s"
  "editor_inv (s\<lparr>selectedShot := b5\<rparr>) = editor_inv s"
  "editor_inv (s\<lparr>currentStyle := b6\<rparr>) = editor_inv s"
  "editor_inv (s\<lparr>shots := b7\<rparr>) = editor_inv s"
  "editor_inv (s\<lparr>isGeneratingImage := b8\<rparr>) = editor_inv s"
  by (simp_all add: editor_inv_def)

lemma handleExportVideo_inv:
  assumes "editor_inv s" shows "editor_inv (handleExportVideo r s)"
proof (cases r)
  case (Ok result)
  show ?thesis
  proof (cases "result_status result = ''EXPORTING''")
    case True
    let ?s3 = "s\<lparr>isExporting := True, exportStatus := Some ''QUEUED'', showExportDialog := True,
                  requests := requests s @ [PostExportVideo (export_tracks (api_url s)
                     (prop_background_music_url s) (shots s)) (prop_task_id s)],
                  exportTaskId := Some (result_task_id result)\<rparr>"
    obtain i s4 where si: "setInterval CheckExportStatus (clear_export_polling ?s3) = (i, s4)"
      by (cases "setInterval CheckExportStatus (clear_export_polling ?s3)") auto
    have "editor_inv ?s3" using assms by simp
    from start_export_inv[OF this si] show ?thesis using Ok True si
      by (simp add: handleExportVideo_def env_defs Let_def)
  next
    case False
    then show ?thesis using Ok assms
      by (simp add: handleExportVideo_def env_defs Let_def)
  qed
qed (use assms in \<open>simp_all add: handleExportVideo_def env_defs Let_def\<close>)

lemma checkExistingExport_inv:
  assumes "editor_inv s" shows "editor_inv (checkExistingExport r s)"
proof (cases "\<exists>d. r = Ok (Some d) \<and> \<not> (export_status d = ''COMPLETED'' \<and>
              (case export_video_url d of None \<Rightarrow> False | Some u \<Rightarrow> truthy u)) \<and>
              (export_status d = ''EXPORTING'' \<or> export_status d = ''QUEUED'')")
  case True
  then obtain d where r: "r = Ok (Some d)"
    and c: "\<not> (export_status d = ''COMPLETED'' \<and>
              (case export_video_url d of None \<Rightarrow> False | Some u \<Rightarrow> truthy u))"
      "export_status d = ''EXPORTING'' \<or> export_status d = ''QUEUED''" by blast
  let ?s2 = "s\<lparr>requests := requests s @ [GetVideoExport (prop_task_id s)],
                exportStatus := Some (export_status d), isExporting := True\<rparr>"
  obtain i s3 where si: "setInterval CheckExportStatus (clear_export_polling ?s2) = (i, s3)"
    by (cases "setInterval CheckExportStatus (clear_export_polling ?s2)") auto
  have "editor_inv ?s2" using assms by simp
  from start_export_inv[OF this si] show ?thesis using r c si
    by (auto simp: checkExistingExport_def env_defs Let_def)
next
  case False
  then show ?thesis using assms
    by (auto simp: checkExistingExport_def env_defs Let_def split: response.splits option.splits)
qed

lemma regenerate_shot_inv:
  assumes "editor_inv s" shows "editor_inv (regenerate_shot s0 sel et v r s)"
proof (cases r)
  case (Ok u)
  let ?s1 = "s\<lparr>requests := requests s @ [PostRegenerateShot (prop_task_id s0)
                        (regenerate_body sel et (editPrompt s0) v (language s0))]\<rparr>"
  obtain i s2 where si: "setInterval (CheckShotStatus (selectedShot s0)) (clear_shot_polling ?s1) = (i, s2)"
    by (cases "setInterval (CheckShotStatus (selectedShot s0)) (clear_shot_polling ?s1)") auto
  have "editor_inv ?s1" using assms by simp
  from start_shot_inv[OF this si] show ?thesis using Ok si
    by (simp add: regenerate_shot_def env_defs Let_def)
qed (use assms in \<open>simp_all add: regenerate_shot_def env_defs Let_def\<close>)

lemma handleRegenerate_inv:
  assumes "editor_inv s" shows "editor_inv (handleRegenerate v r c s)"
  using assms
  by (auto simp: handleRegenerate_def Let_def env_defs handleCaptionUpdate_inv
           split: option.splits response.splits intro!: regenerate_shot_inv)

lemma editor_step_inv: "editor_inv s \<Longrightarrow> editor_inv (editor_step s e)"
  by (cases e)
     (auto simp: handleRegenerate_inv handleGenerateImage_inv handleExportVideo_inv
        checkExistingExport_inv closeExportDialog_inv exportDialogOpenChange_def
        checkShotStatus_inv checkExportStatus_inv split: option.splits editor_callback.splits)

lemma editor_init_inv: "editor_inv (editor_init a b c d e)"
  by (simp add: editor_inv_def editor_init_def)

lemma editor_run_inv: "editor_inv s0 \<Longrightarrow> editor_inv (editor_run s0 es)"
  unfolding editor_run_def
  by (induction es rule: rev_induct) (simp_all add: editor_step_inv)

subsection \<open>Merging the bulk-status response\<close>

text \<open>
  Claim C9. Merging a bulk-status response keeps the length of the task list and the
  sequence of its ids; a task whose id is not in the response is unchanged, and a task
  that changed was replaced by a task of the response with its id.
\<close>

theorem merge_tasks_frame_effect: 
  "length (merge_tasks prevTasks data) = length prevTasks \<and>
   map tid (merge_tasks prevTasks data) = map tid prevTasks \<and>
   (\<forall>i<length prevTasks.
      (tid (prevTasks ! i) \<notin> tid ` set data \<longrightarrow> merge_tasks prevTasks data ! i = prevTasks ! i) \<and>
      (merge_tasks prevTasks data ! i \<noteq> prevTasks ! i \<longrightarrow>
         merge_tasks prevTasks data ! i \<in> set data \<and> tid (prevTasks ! i) \<in> tid ` set data))"
proof -
  have "length (map tid (merge_tasks prevTasks data)) = length (map tid prevTasks)"
    by (simp only: map_tid_merge_tasks)
  then have len: "length (merge_tasks prevTasks data) = length prevTasks" by simp
  show ?thesis
    using len map_tid_merge_tasks[of prevTasks data] merge_tasks_untouched[of _ prevTasks data]
      merge_tasks_cases[of _ prevTasks data]
    by (metis image_eqI)
qed

theorem merge_tasks_frame_effect_witness:
  "(1::nat) < length [sample_task ''a'' ''PENDING'', sample_task ''b'' ''PENDING''] \<and>
   tid ([sample_task ''a'' ''PENDING'', sample_task ''b'' ''PENDING''] ! 1)
     \<notin> tid ` set [sample_task ''a'' ''COMPLETED'', sample_task ''c'' ''FAILED''] \<and>
   merge_tasks [sample_task ''a'' ''PENDING'', sample_task ''b'' ''PENDING'']
     [sample_task ''a'' ''COMPLETED'', sample_task ''c'' ''FAILED''] ! 1 = sample_task ''b'' ''PENDING'' \<and>
   merge_tasks [sample_task ''a'' ''PENDING'', sample_task ''b'' ''PENDING'']
     [sample_task ''a'' ''COMPLETED'', sample_task ''c'' ''FAILED''] ! 0 \<noteq> sample_task ''a'' ''PENDING'' \<and>
   merge_tasks [sample_task ''a'' ''PENDING'', sample_task ''b'' ''PENDING'']
     [sample_task ''a'' ''COMPLETED'', sample_task ''c'' ''FAILED''] ! 0
     \<in> set [sample_task ''a'' ''COMPLETED'', sample_task ''c'' ''FAILED'']"
  using merge_tasks_frame_effect[of "[sample_task ''a'' ''PENDING'', sample_task ''b'' ''PENDING'']"
               "[sample_task ''a'' ''COMPLETED'', sample_task ''c'' ''FAILED'']"]
  by (simp add: sample_task_def merge_tasks_def merge_one_def)


subsection \<open>The export request\<close>

lemma map_enumerate_fst: "map (\<lambda>p. f (fst p)) (enumerate n xs) = map f [n..<n + length xs]"
  by (induction xs arbitrary: n) (simp_all add: upt_rec)

lemma map_enumerate_snd: "map (\<lambda>p. g (snd p)) (enumerate n xs) = map g xs"
  by (induction xs arbitrary: n) simp_all

lemma map_timestamp_video: "map timestamp (keyframes (videoTrack shs)) = map (\<lambda>i. i * 5000) [0..<length shs]"
  using map_enumerate_fst[of "\<lambda>i. i * 5000" 0 shs]
  by (simp add: videoTrack_def comp_def case_prod_unfold)

lemma map_timestamp_voiceover: "map timestamp (keyframes (voiceoverTrack api shs)) = map (\<lambda>i. i * 5000) [0..<length shs]"
  using map_enumerate_fst[of "\<lambda>i. i * 5000" 0 shs]
  by (simp add: voiceoverTrack_def comp_def case_prod_unfold)

lemma map_url_video: "map url (keyframes (videoTrack shs)) = map video_url shs"
  using map_enumerate_snd[of video_url 0 shs]
  by (simp add: videoTrack_def comp_def case_prod_unfold)

lemma map_url_voiceover: "map url (keyframes (voiceoverTrack api shs)) = map (\<lambda>sh. api @ voiceover_url sh) shs"
  using map_enumerate_snd[of "\<lambda>sh. api @ voiceover_url sh" 0 shs]
  by (simp add: voiceoverTrack_def comp_def case_prod_unfold)

lemma slots_end:
  "foldr (\<lambda>k m. max (timestamp k + duration k) m)
     (map (\<lambda>p. \<lparr>timestamp = fst p * 5000, duration = 5000, url = u p\<rparr>) (enumerate n xs)) 0
   = (if xs = [] then 0 else (n + length xs) * 5000)"
  by (induction xs arbitrary: n) (auto simp: max_def)

lemma track_end_video: "track_end (videoTrack shs) = length shs * 5000"
  using slots_end[of "\<lambda>p. video_url (snd p)" 0 shs]
  by (simp add: track_end_def videoTrack_def case_prod_unfold)

lemma track_end_voiceover: "track_end (voiceoverTrack api shs) = length shs * 5000"
  using slots_end[of "\<lambda>p. api @ voiceover_url (snd p)" 0 shs]
  by (simp add: track_end_def voiceoverTrack_def case_prod_unfold)

lemma track_end_music: "track_end (musicTrack m shs) = length shs * 5000"
  by (simp add: track_end_def musicTrack_def)

lemma foldl_add_5: "foldl (\<lambda>acc shot. acc + 5) a xs = a + 5 * length xs"
  by (induction xs arbitrary: a) simp_all

lemma totalDuration_eq: "totalDuration shs = 5 * length shs"
  by (simp add: totalDuration_def foldl_add_5)

text \<open>
  Claim C7. The export request carries the track list built from the shots: the video
  track and the voiceover track, each with one keyframe of 5000 ms per shot, then the
  music track when there is background music, with one keyframe from 0 lasting
  \<open>N * 5000\<close> ms; every track of the request ends at \<open>N * 5000\<close> ms, the
  \<open>N * 5\<close> seconds of \<^verbatim>\<open>totalDuration\<close>.
\<close>

theorem export_tracks_total_duration:
  "requests (handleExportVideo resp s) =
     requests s @ [PostExportVideo (export_tracks (api_url s) (prop_background_music_url s) (shots s))
                     (prop_task_id s)] \<and>
   take 2 (export_tracks api music shs) = [videoTrack shs, voiceoverTrack api shs] \<and>
   drop 2 (export_tracks api music shs) =
     (if music = None \<or> music = Some [] then [] else [musicTrack (the music) shs]) \<and>
   length (keyframes (videoTrack shs)) = length shs \<and>
   length (keyframes (voiceoverTrack api shs)) = length shs \<and>
   list_all (\<lambda>k. duration k = 5000) (keyframes (videoTrack shs)) \<and>
   list_all (\<lambda>k. duration k = 5000) (keyframes (voiceoverTrack api shs)) \<and>
   keyframes (musicTrack m shs) = [\<lparr>timestamp = 0, duration = length shs * 5000, url = m\<rparr>] \<and>
   list_all (\<lambda>t. track_end t = length shs * 5000) (export_tracks api music shs) \<and>
   list_all (\<lambda>t. track_end t = totalDuration shs * 1000) (export_tracks api music shs)"
proof -
  have req: "requests (handleExportVideo resp s) =
     requests s @ [PostExportVideo (export_tracks (api_url s) (prop_background_music_url s) (shots s))
                     (prop_task_id s)]"
    by (cases resp)
       (simp_all add: handleExportVideo_def env_defs Let_def setInterval_def split: prod.splits)
  have str: "take 2 (export_tracks api music shs) = [videoTrack shs, voiceoverTrack api shs]"
     "drop 2 (export_tracks api music shs) =
     (if music = None \<or> music = Some [] then [] else [musicTrack (the music) shs])"
    by (auto simp: export_tracks_def truthy_def split: option.splits)
  have len: "length (keyframes (videoTrack shs)) = length shs"
       "length (keyframes (voiceoverTrack api shs)) = length shs"
    by (simp_all add: videoTrack_def voiceoverTrack_def)
  have dur: "list_all (\<lambda>k. duration k = 5000) (keyframes (videoTrack shs))"
      "list_all (\<lambda>k. duration k = 5000) (keyframes (voiceoverTrack api shs))"
    by (auto simp: videoTrack_def voiceoverTrack_def list_all_iff)
  have mus: "keyframes (musicTrack m shs) = [\<lparr>timestamp = 0, duration = length shs * 5000, url = m\<rparr>]"
    by (simp add: musicTrack_def)
  have tot: "list_all (\<lambda>t. track_end t = length shs * 5000) (export_tracks api music shs)"
    by (simp add: export_tracks_def track_end_video track_end_voiceover track_end_music split: option.splits)
  have tot': "list_all (\<lambda>t. track_end t = totalDuration shs * 1000) (export_tracks api music shs)"
    using tot by (simp add: totalDuration_eq mult.commute)
  show ?thesis using req str len dur mus tot tot' by blast
qed

text \<open>
  Claim C2 as stated fails: with the shot of order 1 stored before the shot of order 0,
  the timestamps of the video keyframes are not the orders times 5000.
\<close>

theorem export_keyframes_by_order_counterexample:
  "map timestamp (keyframes (videoTrack [sample_shot 1 ''b.mp4'', sample_shot 0 ''a.mp4'']))
   \<noteq> map (\<lambda>sh. order sh * 5000) [sample_shot 1 ''b.mp4'', sample_shot 0 ''a.mp4'']"
  by (simp add: videoTrack_def sample_shot_def)

text \<open>
  Claim C2, as amended. The video track and the voiceover track hold one keyframe per
  shot, in array order; the timestamp of the keyframe of the shot at array position
  \<open>index\<close> is \<open>index * 5000\<close> milliseconds, whatever its \<^verbatim>\<open>order\<close> field says. The
  timestamps are the \<^verbatim>\<open>order\<close> fields times 5000 exactly when the shots are stored
  in order, the shot at position \<open>i\<close> having order \<open>i\<close>.
\<close>

theorem export_keyframes_follow_array_index:
  "map timestamp (keyframes (videoTrack shs)) = map (\<lambda>index. index * 5000) [0..<length shs] \<and>
   map timestamp (keyframes (voiceoverTrack api shs)) = map (\<lambda>index. index * 5000) [0..<length shs] \<and>
   map url (keyframes (videoTrack shs)) = map video_url shs \<and>
   map url (keyframes (voiceoverTrack api shs)) = map (\<lambda>sh. api @ voiceover_url sh) shs \<and>
   ((map timestamp (keyframes (videoTrack shs)) = map (\<lambda>sh. order sh * 5000) shs) = contiguous_order shs) \<and>
   ((map timestamp (keyframes (voiceoverTrack api shs)) = map (\<lambda>sh. order sh * 5000) shs) = contiguous_order shs)"
proof -
  have inj: "inj (\<lambda>i::nat. i * 5000)" by (simp add: inj_on_def)
  have "(map (\<lambda>i. i * 5000) [0..<length shs] = map (\<lambda>sh. order sh * 5000) shs) = contiguous_order shs"
  proof -
    have "map (\<lambda>sh. order sh * 5000) shs = map (\<lambda>i. i * 5000) (map order shs)" by (simp add: comp_def)
    then show ?thesis using inj_map_eq_map[OF inj] unfolding contiguous_order_def by metis
  qed
  then show ?thesis
    by (simp add: map_timestamp_video map_timestamp_voiceover map_url_video map_url_voiceover)
qed

subsection \<open>Polling loops\<close>

text \<open>
  Claim C1. The dashboard polling loop keeps its interval alive while some task is in
  progress (PENDING, IN_PROGRESS, PROCESSING, GENERATING_SCRIPT, GENERATING_MEDIA) and
  has no interval alive once every task is COMPLETED or FAILED, after any sequence of
  task loads, interval ticks with any answer, and deletions; with statuses drawn from these
  seven, a status fetch is scheduled exactly when some task is not terminal. At most one
  interval is alive, the one of the ref, and its closure holds the current task list.

  A tick of the interval that is alive, from any such state: while a task is in
  progress it posts the ids of the tasks in progress to the bulk-status endpoint. An
  answer is merged into the task list, and the interval is then alive, as a new interval
  over the merged list, exactly when a merged task is not terminal; so when the answer
  reports every task that was not terminal as COMPLETED or FAILED (the ids of the list
  being distinct), every task is terminal and no fetch is scheduled any more. A failed
  or empty answer leaves the list and the interval as they were, and polling goes on.
  With no task in progress the tick sends nothing and clears the interval. An interval
  that is not alive does not tick.
\<close>

theorem polling_runs_while_incomplete:
  "((\<exists>t\<in>set (tasks (dash_run es)). in_progress (status t)) \<longrightarrow> polling (dash_run es)) \<and>
   (list_all (\<lambda>t. terminal (status t)) (tasks (dash_run es)) \<longrightarrow> \<not> polling (dash_run es)) \<and>
   (list_all (\<lambda>t. in_progress (status t) \<or> terminal (status t)) (tasks (dash_run es)) \<longrightarrow>
      polling (dash_run es) = (\<not> list_all (\<lambda>t. terminal (status t)) (tasks (dash_run es)))) \<and>
   length (live (dash_run es)) \<le> 1 \<and>
   (polling (dash_run es) \<longrightarrow>
      live (dash_run es) =
        [(the (pollingInterval (dash_run es)), CheckAndUpdateTasks (tasks (dash_run es)))]) \<and>
   (map_of (live (dash_run es)) i = None \<longrightarrow>
      dash_run (es @ [IntervalFired i resp]) = dash_run es) \<and>
   (map_of (live (dash_run es)) i \<noteq> None \<longrightarrow>
      ((\<exists>t\<in>set (tasks (dash_run es)). in_progress (status t)) \<longrightarrow>
         requests (dash_run (es @ [IntervalFired i resp])) =
           requests (dash_run es) @
           [PostBulkStatus (map tid (filter (\<lambda>t. in_progress (status t)) (tasks (dash_run es))))]) \<and>
      ((\<exists>t\<in>set (tasks (dash_run es)). in_progress (status t)) \<and> resp = Ok (Some data) \<longrightarrow>
         tasks (dash_run (es @ [IntervalFired i resp])) = merge_tasks (tasks (dash_run es)) data \<and>
         live (dash_run (es @ [IntervalFired i resp])) =
           (if list_all (\<lambda>t. terminal (status t)) (merge_tasks (tasks (dash_run es)) data) then []
            else [(next_id (dash_run es),
                   CheckAndUpdateTasks (merge_tasks (tasks (dash_run es)) data))])) \<and>
      ((\<exists>t\<in>set (tasks (dash_run es)). in_progress (status t)) \<and> resp = Ok (Some data) \<and>
       distinct (map tid (tasks (dash_run es))) \<and>
       list_all (\<lambda>t. terminal (status t)) data \<and>
       (\<forall>t\<in>set (tasks (dash_run es)). \<not> terminal (status t) \<longrightarrow> tid t \<in> tid ` set data) \<longrightarrow>
         list_all (\<lambda>t. terminal (status t)) (tasks (dash_run (es @ [IntervalFired i resp]))) \<and>
         \<not> polling (dash_run (es @ [IntervalFired i resp]))) \<and>
      ((\<exists>t\<in>set (tasks (dash_run es)). in_progress (status t)) \<and>
       (fetch_failed resp \<or> resp = Ok None) \<longrightarrow>
         tasks (dash_run (es @ [IntervalFired i resp])) = tasks (dash_run es) \<and>
         live (dash_run (es @ [IntervalFired i resp])) = live (dash_run es) \<and>
         polling (dash_run (es @ [IntervalFired i resp]))) \<and>
      (\<not> (\<exists>t\<in>set (tasks (dash_run es)). in_progress (status t)) \<longrightarrow>
         \<not> polling (dash_run (es @ [IntervalFired i resp])) \<and>
         requests (dash_run (es @ [IntervalFired i resp])) = requests (dash_run es) \<and>
         tasks (dash_run (es @ [IntervalFired i resp])) = tasks (dash_run es)))"
proof -
  let ?s = "dash_run es"
  let ?s' = "dash_run (es @ [IntervalFired i resp])"
  have inv: "dash_inv ?s" by (rule dash_run_inv)
  have old: "((\<exists>t\<in>set (tasks ?s). in_progress (status t)) \<longrightarrow> polling ?s) \<and>
   (list_all (\<lambda>t. terminal (status t)) (tasks ?s) \<longrightarrow> \<not> polling ?s) \<and>
   (list_all (\<lambda>t. in_progress (status t) \<or> terminal (status t)) (tasks ?s) \<longrightarrow>
      polling ?s = (\<not> list_all (\<lambda>t. terminal (status t)) (tasks ?s))) \<and>
   length (live ?s) \<le> 1"
    using inv unfolding dash_inv_def polling_def list_all_iff
    by (cases "live ?s = []") auto
  have clo: "polling ?s \<longrightarrow> live ?s = [(the (pollingInterval ?s), CheckAndUpdateTasks (tasks ?s))]"
    using inv by (auto simp: dash_inv_def polling_def)
  have dead: "map_of (live ?s) i = None \<longrightarrow> ?s' = ?s"
    by (simp add: dash_run_snoc)
  have alive: "((\<exists>t\<in>set (tasks ?s). in_progress (status t)) \<longrightarrow>
         requests ?s' = requests ?s @
           [PostBulkStatus (map tid (filter (\<lambda>t. in_progress (status t)) (tasks ?s)))]) \<and>
      ((\<exists>t\<in>set (tasks ?s). in_progress (status t)) \<and> resp = Ok (Some data) \<longrightarrow>
         tasks ?s' = merge_tasks (tasks ?s) data \<and>
         live ?s' =
           (if list_all (\<lambda>t. terminal (status t)) (merge_tasks (tasks ?s) data) then []
            else [(next_id ?s, CheckAndUpdateTasks (merge_tasks (tasks ?s) data))])) \<and>
      ((\<exists>t\<in>set (tasks ?s). in_progress (status t)) \<and> resp = Ok (Some data) \<and>
       distinct (map tid (tasks ?s)) \<and>
       list_all (\<lambda>t. terminal (status t)) data \<and>
       (\<forall>t\<in>set (tasks ?s). \<not> terminal (status t) \<longrightarrow> tid t \<in> tid ` set data) \<longrightarrow>
         list_all (\<lambda>t. terminal (status t)) (tasks ?s') \<and> \<not> polling ?s') \<and>
      ((\<exists>t\<in>set (tasks ?s). in_progress (status t)) \<and>
       (fetch_failed resp \<or> resp = Ok None) \<longrightarrow>
         tasks ?s' = tasks ?s \<and> live ?s' = live ?s \<and> polling ?s') \<and>
      (\<not> (\<exists>t\<in>set (tasks ?s). in_progress (status t)) \<longrightarrow>
         \<not> polling ?s' \<and> requests ?s' = requests ?s \<and> tasks ?s' = tasks ?s)"
    if a: "map_of (live ?s) i \<noteq> None"
  proof -
    have st: "?s' = render (checkAndUpdateTasks (tasks ?s) resp ?s)"
      using alive_interval(1)[OF inv a] by (simp add: dash_run_snoc)
    have ne: "live ?s \<noteq> []" by (rule alive_interval(2)[OF inv a])
    have 1: "requests ?s' = requests ?s @
           [PostBulkStatus (map tid (filter (\<lambda>t. in_progress (status t)) (tasks ?s)))]"
      if "\<exists>t\<in>set (tasks ?s). in_progress (status t)"
      unfolding st using tick_requests[OF that] by simp
    have 2: "tasks ?s' = merge_tasks (tasks ?s) data \<and>
         live ?s' =
           (if list_all (\<lambda>t. terminal (status t)) (merge_tasks (tasks ?s) data) then []
            else [(next_id ?s, CheckAndUpdateTasks (merge_tasks (tasks ?s) data))])"
      if "\<exists>t\<in>set (tasks ?s). in_progress (status t)" "resp = Ok (Some data)"
      using tick_answered[OF inv that(1), of data] st that(2) by simp
    have 3: "list_all (\<lambda>t. terminal (status t)) (tasks ?s') \<and> \<not> polling ?s'"
      if h: "\<exists>t\<in>set (tasks ?s). in_progress (status t)" "resp = Ok (Some data)"
        "distinct (map tid (tasks ?s))" "list_all (\<lambda>t. terminal (status t)) data"
        "\<forall>t\<in>set (tasks ?s). \<not> terminal (status t) \<longrightarrow> tid t \<in> tid ` set data"
    proof -
      have "list_all (\<lambda>t. terminal (status t)) (merge_tasks (tasks ?s) data)"
        using merge_tasks_all_terminal[OF h(3) h(5) h(4)] .
      then show ?thesis using 2[OF h(1) h(2)] by (simp add: polling_def)
    qed
    have 4: "tasks ?s' = tasks ?s \<and> live ?s' = live ?s \<and> polling ?s'"
      if "\<exists>t\<in>set (tasks ?s). in_progress (status t)" "fetch_failed resp \<or> resp = Ok None"
      unfolding st using tick_unanswered[OF inv that] ne by (simp add: polling_def)
    have 5: "\<not> polling ?s' \<and> requests ?s' = requests ?s \<and> tasks ?s' = tasks ?s"
      if "\<not> (\<exists>t\<in>set (tasks ?s). in_progress (status t))"
      unfolding st using tick_idle[OF inv that] by (simp add: polling_def)
    show ?thesis using 1 2 3 4 5 by blast
  qed
  show ?thesis using old clo dead alive by blast
qed

lemmas dash_defs = dash_run_def dashboard_init_def fetchTasks_def render_def tasks_effect_def
  tasks_effect_cleanup_def checkAndUpdateTasks_def clear_polling_def setTasks_def setInterval_def
  clearInterval_def fetch_def console_error_def merge_tasks_def merge_one_def polling_def
  in_progress_def terminal_def sample_task_def Let_def

theorem polling_runs_while_incomplete_witness:
  "map_of (live (dash_run [TasksFetched (Ok (Some [sample_task ''a'' ''PENDING'', sample_task ''b'' ''PROCESSING'']))])) 1 \<noteq> None \<and>
   (\<exists>t\<in>set (tasks (dash_run [TasksFetched (Ok (Some [sample_task ''a'' ''PENDING'', sample_task ''b'' ''PROCESSING'']))])).
       in_progress (status t)) \<and>
   polling (dash_run [TasksFetched (Ok (Some [sample_task ''a'' ''PENDING'', sample_task ''b'' ''PROCESSING'']))]) \<and>
   distinct (map tid (tasks (dash_run [TasksFetched (Ok (Some [sample_task ''a'' ''PENDING'', sample_task ''b'' ''PROCESSING'']))]))) \<and>
   list_all (\<lambda>t. terminal (status t)) [sample_task ''a'' ''COMPLETED'', sample_task ''b'' ''FAILED''] \<and>
   requests (dash_run ([TasksFetched (Ok (Some [sample_task ''a'' ''PENDING'', sample_task ''b'' ''PROCESSING'']))] @
                       [IntervalFired 1 (Ok (Some [sample_task ''a'' ''COMPLETED'', sample_task ''b'' ''FAILED'']))]))
     = [GetVideoTasks, PostBulkStatus [''a'', ''b'']] \<and>
   tasks (dash_run ([TasksFetched (Ok (Some [sample_task ''a'' ''PENDING'', sample_task ''b'' ''PROCESSING'']))] @
                       [IntervalFired 1 (Ok (Some [sample_task ''a'' ''COMPLETED'', sample_task ''b'' ''FAILED'']))]))
     = [sample_task ''a'' ''COMPLETED'', sample_task ''b'' ''FAILED''] \<and>
   \<not> polling (dash_run ([TasksFetched (Ok (Some [sample_task ''a'' ''PENDING'', sample_task ''b'' ''PROCESSING'']))] @
                       [IntervalFired 1 (Ok (Some [sample_task ''a'' ''COMPLETED'', sample_task ''b'' ''FAILED'']))])) \<and>
   live (dash_run ([TasksFetched (Ok (Some [sample_task ''a'' ''PENDING'', sample_task ''b'' ''PROCESSING'']))] @
                       [IntervalFired 1 (Ok (Some [sample_task ''a'' ''COMPLETED'']))]))
     = [(2, CheckAndUpdateTasks [sample_task ''a'' ''COMPLETED'', sample_task ''b'' ''PROCESSING''])] \<and>
   fetch_failed (NotOk :: VideoTask list option response) \<and>
   polling (dash_run ([TasksFetched (Ok (Some [sample_task ''a'' ''PENDING'', sample_task ''b'' ''PROCESSING'']))] @
                       [IntervalFired 1 NotOk])) \<and>
   map_of (live (dash_run [TasksFetched (Ok (Some [sample_task ''q'' ''QUEUED'']))])) 1 \<noteq> None \<and>
   \<not> (\<exists>t\<in>set (tasks (dash_run [TasksFetched (Ok (Some [sample_task ''q'' ''QUEUED'']))])). in_progress (status t)) \<and>
   \<not> polling (dash_run ([TasksFetched (Ok (Some [sample_task ''q'' ''QUEUED'']))] @ [IntervalFired 1 NotOk])) \<and>
   map_of (live (dash_run [])) 1 = None \<and>
   dash_run ([] @ [IntervalFired 1 NotOk]) = dash_run []"
  using
    polling_runs_while_incomplete[of "[TasksFetched (Ok (Some [sample_task ''a'' ''PENDING'', sample_task ''b'' ''PROCESSING'']))]" 1
          "Ok (Some [sample_task ''a'' ''COMPLETED'', sample_task ''b'' ''FAILED''])"
          "[sample_task ''a'' ''COMPLETED'', sample_task ''b'' ''FAILED'']"]
    polling_runs_while_incomplete[of "[TasksFetched (Ok (Some [sample_task ''a'' ''PENDING'', sample_task ''b'' ''PROCESSING'']))]" 1
          "Ok (Some [sample_task ''a'' ''COMPLETED''])" "[sample_task ''a'' ''COMPLETED'']"]
    polling_runs_while_incomplete[of "[TasksFetched (Ok (Some [sample_task ''a'' ''PENDING'', sample_task ''b'' ''PROCESSING'']))]" 1
          NotOk "[]"]
    polling_runs_while_incomplete[of "[TasksFetched (Ok (Some [sample_task ''q'' ''QUEUED'']))]" 1 NotOk "[]"]
    polling_runs_while_incomplete[of "[]" 1 NotOk "[]"]
  by (simp add: dash_defs fetch_failed_def)

text \<open>
  Claim C6. A tick whose status fetch fails (the request is rejected or the response
  is not ok) changes neither the intervals alive nor the ref, and logs the error; for
  the task poll of the dashboard, when it has something to fetch, for the shot poll and
  for the export poll of the editor.
\<close>

theorem fetch_failure_keeps_polling:
  "(fetch_failed r1 \<and> (\<exists>t\<in>set captured. in_progress (status t)) \<longrightarrow>
      live (checkAndUpdateTasks captured r1 d) = live d \<and>
      pollingInterval (checkAndUpdateTasks captured r1 d) = pollingInterval d \<and>
      tasks_changed (checkAndUpdateTasks captured r1 d) = tasks_changed d \<and>
      console (checkAndUpdateTasks captured r1 d) = console d @ [''Error updating tasks:'']) \<and>
   (fetch_failed r2 \<longrightarrow>
      live (checkShotStatus c r2 e) = live e \<and>
      shotPollingInterval (checkShotStatus c r2 e) = shotPollingInterval e \<and>
      console (checkShotStatus c r2 e) = console e @ [''Error checking shot status:'']) \<and>
   (fetch_failed r3 \<longrightarrow>
      live (checkExportStatus r3 e) = live e \<and>
      exportPollingInterval (checkExportStatus r3 e) = exportPollingInterval e \<and>
      console (checkExportStatus r3 e) = console e @ [''Error checking export status:''])"
proof -
  have 1: "fetch_failed r1 \<and> (\<exists>t\<in>set captured. in_progress (status t)) \<longrightarrow>
      live (checkAndUpdateTasks captured r1 d) = live d \<and>
      pollingInterval (checkAndUpdateTasks captured r1 d) = pollingInterval d \<and>
      tasks_changed (checkAndUpdateTasks captured r1 d) = tasks_changed d \<and>
      console (checkAndUpdateTasks captured r1 d) = console d @ [''Error updating tasks:'']"
    by (cases r1)
       (auto simp: fetch_failed_def checkAndUpdateTasks_def env_defs Let_def filter_empty_conv)
  have 2: "fetch_failed r2 \<longrightarrow>
      live (checkShotStatus c r2 e) = live e \<and>
      shotPollingInterval (checkShotStatus c r2 e) = shotPollingInterval e \<and>
      console (checkShotStatus c r2 e) = console e @ [''Error checking shot status:'']"
    by (cases r2) (simp_all add: fetch_failed_def checkShotStatus_def env_defs)
  have 3: "fetch_failed r3 \<longrightarrow>
      live (checkExportStatus r3 e) = live e \<and>
      exportPollingInterval (checkExportStatus r3 e) = exportPollingInterval e \<and>
      console (checkExportStatus r3 e) = console e @ [''Error checking export status:'']"
    by (cases r3) (simp_all add: fetch_failed_def checkExportStatus_def env_defs)
  show ?thesis using 1 2 3 by blast
qed

theorem fetch_failure_keeps_polling_witness:
  "fetch_failed (NotOk :: VideoTask list option response) \<and>
   (\<exists>t\<in>set [sample_task ''a'' ''PENDING'']. in_progress (status t)) \<and>
   live (checkAndUpdateTasks [sample_task ''a'' ''PENDING''] NotOk
           (dash_run [TasksFetched (Ok (Some [sample_task ''a'' ''PENDING'']))]))
     = [(1, CheckAndUpdateTasks [sample_task ''a'' ''PENDING''])] \<and>
   fetch_failed (Rejected :: Shot list option response) \<and>
   live (checkShotStatus None Rejected
           (editor_run (sample_editor [sample_shot 0 ''a.mp4''])
              [ExportVideo (Ok \<lparr>result_task_id = ''e1'', result_status = ''EXPORTING''\<rparr>)]))
     = [(1, CheckExportStatus)] \<and>
   fetch_failed (NotOk :: ExportData option response) \<and>
   live (checkExportStatus NotOk
           (editor_run (sample_editor [sample_shot 0 ''a.mp4''])
              [ExportVideo (Ok \<lparr>result_task_id = ''e1'', result_status = ''EXPORTING''\<rparr>)]))
     = [(1, CheckExportStatus)]"
  using fetch_failure_keeps_polling[of "NotOk" "[sample_task ''a'' ''PENDING'']"
      "dash_run [TasksFetched (Ok (Some [sample_task ''a'' ''PENDING'']))]"
      Rejected None "editor_run (sample_editor [sample_shot 0 ''a.mp4''])
              [ExportVideo (Ok \<lparr>result_task_id = ''e1'', result_status = ''EXPORTING''\<rparr>)]"
      NotOk]
  by (simp add: dash_defs fetch_failed_def editor_run_def sample_editor_def editor_init_def
        handleExportVideo_def clear_export_polling_def toast_success_def)

lemma export_polling_clear:
  "editor_inv s \<Longrightarrow> \<not> list_ex (\<lambda>(i, cb). cb = CheckExportStatus) (live (clear_export_polling s))"
  unfolding editor_inv_iff list_ex_iff by (auto simp: live_clear_export)

text \<open>
  Claim C5. In every state the editor can reach, an export status poll that answers
  \<^verbatim>\<open>FAILED\<close> leaves no export status fetch scheduled and notifies the error.
\<close>

theorem export_failed_clears_polling:
  "export_status d = ''FAILED'' \<longrightarrow>
     \<not> export_polling (checkExportStatus (Ok (Some d)) (editor_run (editor_init tk lang music api shs) es)) \<and>
     toasts (checkExportStatus (Ok (Some d)) (editor_run (editor_init tk lang music api shs) es)) =
       toasts (editor_run (editor_init tk lang music api shs) es) @
       [ToastError (''Export failed: '' @
          (case export_error d of None \<Rightarrow> ''Unknown error''
           | Some e \<Rightarrow> if truthy e then e else ''Unknown error''))] \<and>
     \<not> isExporting (checkExportStatus (Ok (Some d)) (editor_run (editor_init tk lang music api shs) es)) \<and>
     exportStatus (checkExportStatus (Ok (Some d)) (editor_run (editor_init tk lang music api shs) es)) =
       Some ''FAILED''"
proof
  assume f: "export_status d = ''FAILED''"
  let ?s = "editor_run (editor_init tk lang music api shs) es"
  have inv: "editor_inv ?s" by (intro editor_run_inv editor_init_inv)
  let ?s2 = "?s\<lparr>requests := requests ?s @ [GetVideoExportStatus (prop_task_id ?s)],
               exportStatus := Some ''FAILED''\<rparr>"
  have "editor_inv ?s2" using inv by simp
  from export_polling_clear[OF this]
  show "\<not> export_polling (checkExportStatus (Ok (Some d)) ?s) \<and>
     toasts (checkExportStatus (Ok (Some d)) ?s) =
       toasts ?s @
       [ToastError (''Export failed: '' @
          (case export_error d of None \<Rightarrow> ''Unknown error''
           | Some e \<Rightarrow> if truthy e then e else ''Unknown error''))] \<and>
     \<not> isExporting (checkExportStatus (Ok (Some d)) ?s) \<and>
     exportStatus (checkExportStatus (Ok (Some d)) ?s) = Some ''FAILED''"
    using f by (simp add: checkExportStatus_def export_polling_def env_defs Let_def clear_export_polling_eq)
qed

lemmas editor_defs = editor_run_def sample_editor_def editor_init_def handleExportVideo_def
  clear_export_polling_def clear_shot_polling_def env_defs setInterval_def clearInterval_def
  checkExportStatus_def export_polling_def shot_polling_def truthy_def Let_def

theorem export_failed_clears_polling_witness:
  "export_status \<lparr>export_status = ''FAILED'', export_video_url = None, export_error = Some ''boom''\<rparr> = ''FAILED'' \<and>
   export_polling (editor_run (editor_init ''t1'' None None ''http://api'' [sample_shot 0 ''a.mp4''])
              [ExportVideo (Ok \<lparr>result_task_id = ''e1'', result_status = ''EXPORTING''\<rparr>)]) \<and>
   \<not> export_polling (checkExportStatus
        (Ok (Some \<lparr>export_status = ''FAILED'', export_video_url = None, export_error = Some ''boom''\<rparr>))
        (editor_run (editor_init ''t1'' None None ''http://api'' [sample_shot 0 ''a.mp4''])
              [ExportVideo (Ok \<lparr>result_task_id = ''e1'', result_status = ''EXPORTING''\<rparr>)])) \<and>
   toasts (checkExportStatus
        (Ok (Some \<lparr>export_status = ''FAILED'', export_video_url = None, export_error = Some ''boom''\<rparr>))
        (editor_run (editor_init ''t1'' None None ''http://api'' [sample_shot 0 ''a.mp4''])
              [ExportVideo (Ok \<lparr>result_task_id = ''e1'', result_status = ''EXPORTING''\<rparr>)]))
    = [ToastSuccess ''Video export started'', ToastError ''Export failed: boom'']"
  using export_failed_clears_polling[of "\<lparr>export_status = ''FAILED'', export_video_url = None, export_error = Some ''boom''\<rparr>"
      "''t1''" None None "''http://api''" "[sample_shot 0 ''a.mp4'']"
      "[ExportVideo (Ok \<lparr>result_task_id = ''e1'', result_status = ''EXPORTING''\<rparr>)]"]
  by (simp add: editor_defs)

subsection \<open>Closing the export dialog\<close>

text \<open>
  Claim C8 as stated fails: with an export running, the export status poll is still
  scheduled after the dialog is closed.
\<close>

theorem close_export_dialog_keeps_polling_counterexample:
  "isExporting (editor_run (sample_editor [sample_shot 0 ''a.mp4''])
              [ExportVideo (Ok \<lparr>result_task_id = ''e1'', result_status = ''EXPORTING''\<rparr>)]) \<and>
   export_polling (closeExportDialog (editor_run (sample_editor [sample_shot 0 ''a.mp4''])
              [ExportVideo (Ok \<lparr>result_task_id = ''e1'', result_status = ''EXPORTING''\<rparr>)]))"
  by (simp add: editor_defs closeExportDialog_def)

text \<open>
  Claim C8, as amended. Closing the export dialog sends no request and clears no
  interval: the export status poll stays scheduled as it was. It hides the dialog and,
  unless an export is running, forgets the export status and the exported URL.
\<close>

theorem close_export_dialog_is_local:
  "requests (closeExportDialog s) = requests s \<and>
   live (closeExportDialog s) = live s \<and>
   export_polling (closeExportDialog s) = export_polling s \<and>
   closeExportDialog s =
     s\<lparr>showExportDialog := False,
       exportStatus := (if isExporting s then exportStatus s else None),
       exportedVideoUrl := (if isExporting s then exportedVideoUrl s else None)\<rparr> \<and>
   exportDialogOpenChange False s = s\<lparr>showExportDialog := False\<rparr>"
  by (simp add: closeExportDialog_def exportDialogOpenChange_def export_polling_def Let_def)

subsection \<open>Edits\<close>

lemma live_handleCaptionUpdate: "live (handleCaptionUpdate c s) = live s"
  by (auto simp: handleCaptionUpdate_def env_defs Let_def split: option.splits response.splits)

lemma shotref_handleCaptionUpdate: "shotPollingInterval (handleCaptionUpdate c s) = shotPollingInterval s"
  by (auto simp: handleCaptionUpdate_def env_defs Let_def split: option.splits response.splits)

lemma requests_handleCaptionUpdate:
  "selectedShot s = Some sel \<Longrightarrow> truthy (editPrompt s) \<Longrightarrow>
   requests (handleCaptionUpdate c s) =
     requests s @ [PutUpdateCaptions (prop_task_id s) (order sel) (newCaptions (editPrompt s))]"
  by (auto simp: handleCaptionUpdate_def env_defs Let_def split: option.splits response.splits)

lemma live_handleGenerateImage: "live (handleGenerateImage g u s) = live s"
  by (auto simp: handleGenerateImage_def env_defs Let_def split: option.splits response.splits)

lemma regenerate_shot_ok:
  "live (regenerate_shot s0 sel et vo (Ok x) s) =
     live (clear_shot_polling s) @ [(next_id s, CheckShotStatus (selectedShot s0))] \<and>
   shotPollingInterval (regenerate_shot s0 sel et vo (Ok x) s) = Some (next_id s) \<and>
   requests (regenerate_shot s0 sel et vo (Ok x) s) =
     requests s @ [PostRegenerateShot (prop_task_id s0)
                     (regenerate_body sel et (editPrompt s0) vo (language s0))]"
  by (simp add: regenerate_shot_def env_defs Let_def setInterval_def clear_shot_polling_eq)

lemma regenerate_shot_failed:
  "fetch_failed r \<Longrightarrow>
   live (regenerate_shot s0 sel et vo r s) = live s \<and>
   shotPollingInterval (regenerate_shot s0 sel et vo r s) = shotPollingInterval s \<and>
   toasts (regenerate_shot s0 sel et vo r s) =
     toasts s @ [ToastError (''Failed to regenerate '' @ edit_type_name et)]"
  by (cases r) (simp_all add: regenerate_shot_def env_defs Let_def fetch_failed_def)

lemma requests_handleGenerateImage:
  "selectedShot s = Some sel \<Longrightarrow> truthy (editPrompt s) \<Longrightarrow>
   requests (handleGenerateImage g u s) =
     requests s @ PostGenerateImage (editPrompt s) (currentStyle s) #
       (case g of Ok img \<Rightarrow> [PutUpdateShot (prop_task_id s) (order sel) img] | _ \<Rightarrow> [])"
  by (auto simp: handleGenerateImage_def env_defs Let_def split: response.splits option.splits)

lemma refs_handleGenerateImage:
  "shotPollingInterval (handleGenerateImage g u s) = shotPollingInterval s \<and>
   exportPollingInterval (handleGenerateImage g u s) = exportPollingInterval s"
  by (auto simp: handleGenerateImage_def env_defs Let_def split: response.splits option.splits)

lemma shots_handleGenerateImage:
  "selectedShot s = Some sel \<Longrightarrow> truthy (editPrompt s) \<Longrightarrow>
   shots (handleGenerateImage (Ok img) (Ok (Some us)) s) = us \<and>
   toasts (handleGenerateImage (Ok img) (Ok (Some us)) s) =
     toasts s @ [ToastSuccess ''Starting image generated successfully'']"
  by (simp add: handleGenerateImage_def env_defs Let_def)

lemma handleGenerateImage_failed:
  "selectedShot s = Some sel \<Longrightarrow> truthy (editPrompt s) \<Longrightarrow>
   fetch_failed g \<or> (\<exists>img. g = Ok img) \<and> fetch_failed u \<Longrightarrow>
   shots (handleGenerateImage g u s) = shots s \<and>
   toasts (handleGenerateImage g u s) =
     toasts s @ [ToastError ''Failed to generate starting image'']"
  by (cases g; cases u)
     (auto simp: handleGenerateImage_def env_defs Let_def fetch_failed_def)

lemma handleGenerateImage_guard:
  "selectedShot s = None \<or> editPrompt s = [] \<Longrightarrow> handleGenerateImage g u s = s"
  by (auto simp: handleGenerateImage_def truthy_def split: option.splits)

text \<open>
  Claim C4, as amended. With a shot selected and a non-empty prompt, a caption edit
  sends the one \<^verbatim>\<open>update-captions\<close> request and leaves the intervals as they are,
  whatever the answer. A video, audio or image edit starts the shot-status interval when
  its regeneration request (and, for audio, the voiceover request before it) is
  answered; when one of them fails no interval is started and the failure is notified.
  Generating a starting image is a direct update that starts no polling: it leaves the
  intervals and both refs as they are, sends the image request and then, when that is
  answered, the \<^verbatim>\<open>update-shot\<close> request with the new URL, and no regeneration
  request; the answered shot list replaces the local one at once, and a failure of
  either request is notified and changes no shot. Without a selected shot or with an
  empty prompt it does nothing.
\<close>

theorem edit_polling_by_type:
  "live (handleGenerateImage g u s) = live s \<and>
   (selectedShot s = Some sel \<and> truthy (editPrompt s) \<and> editType s = Some et \<longrightarrow>
    (et = Caption \<longrightarrow>
       live (handleRegenerate v r c s) = live s \<and>
       shotPollingInterval (handleRegenerate v r c s) = shotPollingInterval s \<and>
       requests (handleRegenerate v r c s) =
         requests s @ [PutUpdateCaptions (prop_task_id s) (order sel) (newCaptions (editPrompt s))]) \<and>
    (et \<noteq> Caption \<and> regeneration_accepted et v r \<longrightarrow>
       shot_polling (handleRegenerate v r c s) \<and>
       live (handleRegenerate v r c s) =
         live (clear_shot_polling s) @ [(next_id s, CheckShotStatus (Some sel))] \<and>
       shotPollingInterval (handleRegenerate v r c s) = Some (next_id s) \<and>
       requests (handleRegenerate v r c s) =
         requests s @
         (if et = Audio then [PostGenerateVoiceover (prop_task_id s) (editPrompt s) (language s)] else []) @
         [PostRegenerateShot (prop_task_id s)
            (regenerate_body sel et (editPrompt s)
               (if et = Audio then (case v of Ok new_url \<Rightarrow> Some new_url | _ \<Rightarrow> None) else None)
               (language s))]) \<and>
    (et \<noteq> Caption \<and> \<not> regeneration_accepted et v r \<longrightarrow>
       live (handleRegenerate v r c s) = live s \<and>
       shotPollingInterval (handleRegenerate v r c s) = shotPollingInterval s \<and>
       toasts (handleRegenerate v r c s) =
         toasts s @ [ToastError (''Failed to regenerate '' @ edit_type_name et)])) \<and>
   shotPollingInterval (handleGenerateImage g u s) = shotPollingInterval s \<and>
   exportPollingInterval (handleGenerateImage g u s) = exportPollingInterval s \<and>
   (selectedShot s = Some sel \<and> truthy (editPrompt s) \<longrightarrow>
      requests (handleGenerateImage g u s) =
        requests s @ PostGenerateImage (editPrompt s) (currentStyle s) #
          (case g of Ok img \<Rightarrow> [PutUpdateShot (prop_task_id s) (order sel) img] | _ \<Rightarrow> []) \<and>
      (g = Ok new_image \<and> u = Ok (Some us) \<longrightarrow>
         shots (handleGenerateImage g u s) = us \<and>
         toasts (handleGenerateImage g u s) =
           toasts s @ [ToastSuccess ''Starting image generated successfully'']) \<and>
      (fetch_failed g \<or> (\<exists>img. g = Ok img) \<and> fetch_failed u \<longrightarrow>
         shots (handleGenerateImage g u s) = shots s \<and>
         toasts (handleGenerateImage g u s) =
           toasts s @ [ToastError ''Failed to generate starting image''])) \<and>
   (selectedShot s = None \<or> editPrompt s = [] \<longrightarrow> handleGenerateImage g u s = s)"
proof -
  have cap: "live (handleRegenerate v r c s) = live s \<and>
       shotPollingInterval (handleRegenerate v r c s) = shotPollingInterval s \<and>
       requests (handleRegenerate v r c s) =
         requests s @ [PutUpdateCaptions (prop_task_id s) (order sel) (newCaptions (editPrompt s))]"
    if "selectedShot s = Some sel" "truthy (editPrompt s)" "editType s = Some Caption"
    using that
    by (simp add: handleRegenerate_def live_handleCaptionUpdate shotref_handleCaptionUpdate
          requests_handleCaptionUpdate)
  have acc: "shot_polling (handleRegenerate v r c s) \<and>
       live (handleRegenerate v r c s) =
         live (clear_shot_polling s) @ [(next_id s, CheckShotStatus (Some sel))] \<and>
       shotPollingInterval (handleRegenerate v r c s) = Some (next_id s) \<and>
       requests (handleRegenerate v r c s) =
         requests s @
         (if et = Audio then [PostGenerateVoiceover (prop_task_id s) (editPrompt s) (language s)] else []) @
         [PostRegenerateShot (prop_task_id s)
            (regenerate_body sel et (editPrompt s)
               (if et = Audio then (case v of Ok new_url \<Rightarrow> Some new_url | _ \<Rightarrow> None) else None)
               (language s))]"
    if h: "selectedShot s = Some sel" "truthy (editPrompt s)" "editType s = Some et"
       "et \<noteq> Caption" and a: "regeneration_accepted et v r"
  proof -
    obtain x where r: "r = Ok x" using a
      by (cases r) (auto simp: regeneration_accepted_def fetch_failed_def)
    show ?thesis
    proof (cases "et = Audio")
      case True
      then obtain new_url where v: "v = Ok new_url" using a
        by (cases v) (auto simp: regeneration_accepted_def fetch_failed_def)
      show ?thesis using h True
        unfolding r v
        by (simp add: handleRegenerate_def Let_def regenerate_shot_ok env_defs
              clear_shot_polling_eq shot_polling_def)
    next
      case False
      then show ?thesis using h
        unfolding r
        by (simp add: handleRegenerate_def Let_def regenerate_shot_ok env_defs
              clear_shot_polling_eq shot_polling_def)
    qed
  qed
  have rej: "live (handleRegenerate v r c s) = live s \<and>
       shotPollingInterval (handleRegenerate v r c s) = shotPollingInterval s \<and>
       toasts (handleRegenerate v r c s) =
         toasts s @ [ToastError (''Failed to regenerate '' @ edit_type_name et)]"
    if h: "selectedShot s = Some sel" "truthy (editPrompt s)" "editType s = Some et"
       "et \<noteq> Caption" and a: "\<not> regeneration_accepted et v r"
  proof (cases "et = Audio \<and> fetch_failed v")
    case True
    then show ?thesis using h
      by (cases v)
         (simp_all add: handleRegenerate_def Let_def env_defs fetch_failed_def)
  next
    case False
    then have f: "fetch_failed r" using a by (auto simp: regeneration_accepted_def)
    show ?thesis
    proof (cases "et = Audio")
      case True
      then obtain new_url where v: "v = Ok new_url" using False
        by (cases v) (auto simp: fetch_failed_def)
      show ?thesis using h True regenerate_shot_failed[OF f] unfolding v
        by (simp add: handleRegenerate_def Let_def env_defs)
    next
      case False
      then show ?thesis using h regenerate_shot_failed[OF f]
        by (simp add: handleRegenerate_def Let_def env_defs)
    qed
  qed
  have regen: "live (handleGenerateImage g u s) = live s \<and>
   (selectedShot s = Some sel \<and> truthy (editPrompt s) \<and> editType s = Some et \<longrightarrow>
    (et = Caption \<longrightarrow>
       live (handleRegenerate v r c s) = live s \<and>
       shotPollingInterval (handleRegenerate v r c s) = shotPollingInterval s \<and>
       requests (handleRegenerate v r c s) =
         requests s @ [PutUpdateCaptions (prop_task_id s) (order sel) (newCaptions (editPrompt s))]) \<and>
    (et \<noteq> Caption \<and> regeneration_accepted et v r \<longrightarrow>
       shot_polling (handleRegenerate v r c s) \<and>
       live (handleRegenerate v r c s) =
         live (clear_shot_polling s) @ [(next_id s, CheckShotStatus (Some sel))] \<and>
       shotPollingInterval (handleRegenerate v r c s) = Some (next_id s) \<and>
       requests (handleRegenerate v r c s) =
         requests s @
         (if et = Audio then [PostGenerateVoiceover (prop_task_id s) (editPrompt s) (language s)] else []) @
         [PostRegenerateShot (prop_task_id s)
            (regenerate_body sel et (editPrompt s)
               (if et = Audio then (case v of Ok new_url \<Rightarrow> Some new_url | _ \<Rightarrow> None) else None)
               (language s))]) \<and>
    (et \<noteq> Caption \<and> \<not> regeneration_accepted et v r \<longrightarrow>
       live (handleRegenerate v r c s) = live s \<and>
       shotPollingInterval (handleRegenerate v r c s) = shotPollingInterval s \<and>
       toasts (handleRegenerate v r c s) =
         toasts s @ [ToastError (''Failed to regenerate '' @ edit_type_name et)]))"
    using cap acc rej live_handleGenerateImage by blast
  have img: "selectedShot s = Some sel \<and> truthy (editPrompt s) \<longrightarrow>
      requests (handleGenerateImage g u s) =
        requests s @ PostGenerateImage (editPrompt s) (currentStyle s) #
          (case g of Ok img \<Rightarrow> [PutUpdateShot (prop_task_id s) (order sel) img] | _ \<Rightarrow> []) \<and>
      (g = Ok new_image \<and> u = Ok (Some us) \<longrightarrow>
         shots (handleGenerateImage g u s) = us \<and>
         toasts (handleGenerateImage g u s) =
           toasts s @ [ToastSuccess ''Starting image generated successfully'']) \<and>
      (fetch_failed g \<or> (\<exists>img. g = Ok img) \<and> fetch_failed u \<longrightarrow>
         shots (handleGenerateImage g u s) = shots s \<and>
         toasts (handleGenerateImage g u s) =
           toasts s @ [ToastError ''Failed to generate starting image''])"
    using requests_handleGenerateImage[of s sel g u] shots_handleGenerateImage[of s sel new_image us]
      handleGenerateImage_failed[of s sel g u]
    by blast
  show ?thesis
    using regen img refs_handleGenerateImage[of g u s] handleGenerateImage_guard[of s g u]
    by blast
qed

lemmas handler_defs = handleRegenerate_def handleCaptionUpdate_def handleGenerateImage_def
  regenerate_shot_def regenerate_body_def checkShotStatus_def reselect_def language_def
  regeneration_accepted_def fetch_failed_def

text \<open>
  Claim C4 as stated fails: a video edit whose regeneration request is refused starts
  no shot-status interval, and generating a starting image sends the image request and
  the direct shot update, no regeneration request, and starts no interval either.
\<close>

theorem regenerate_failure_no_polling_counterexample:
  "editType (editor_run (sample_editor [sample_shot 0 ''a.mp4''])
      [SetSelectedShot (Some (sample_shot 0 ''a.mp4'')), SetEditType (Some Video),
       SetShowEditDialog True, SetEditPrompt [0x61, 0x20, 0x63, 0x61, 0x74]]) = Some Video \<and>
   \<not> shot_polling (editor_run (sample_editor [sample_shot 0 ''a.mp4''])
      [SetSelectedShot (Some (sample_shot 0 ''a.mp4'')), SetEditType (Some Video),
       SetShowEditDialog True, SetEditPrompt [0x61, 0x20, 0x63, 0x61, 0x74], Regenerate Rejected NotOk Rejected]) \<and>
   requests (editor_run (sample_editor [sample_shot 0 ''a.mp4''])
      [SetSelectedShot (Some (sample_shot 0 ''a.mp4'')), SetEditType (Some Image),
       SetShowEditDialog True, SetEditPrompt [0x61, 0x20, 0x63, 0x61, 0x74],
       GenerateImage (Ok ''img.png'') (Ok (Some [sample_shot 0 ''a.mp4'']))])
     = [PostGenerateImage [0x61, 0x20, 0x63, 0x61, 0x74] ''realistic'', PutUpdateShot ''t1'' 0 ''img.png''] \<and>
   \<not> shot_polling (editor_run (sample_editor [sample_shot 0 ''a.mp4''])
      [SetSelectedShot (Some (sample_shot 0 ''a.mp4'')), SetEditType (Some Image),
       SetShowEditDialog True, SetEditPrompt [0x61, 0x20, 0x63, 0x61, 0x74],
       GenerateImage (Ok ''img.png'') (Ok (Some [sample_shot 0 ''a.mp4'']))])"
  by (simp add: editor_defs handler_defs sample_shot_def)

theorem edit_polling_by_type_witness:
  "selectedShot ((sample_editor [sample_shot 0 ''a.mp4''])
       \<lparr>selectedShot := Some (sample_shot 0 ''a.mp4''), editPrompt := [0x61, 0x20, 0x63, 0x61, 0x74], editType := Some Caption\<rparr>)
     = Some (sample_shot 0 ''a.mp4'') \<and>
   truthy ([0x61, 0x20, 0x63, 0x61, 0x74] :: utf16) \<and>
   live (handleRegenerate Rejected Rejected (Ok None) ((sample_editor [sample_shot 0 ''a.mp4''])
       \<lparr>selectedShot := Some (sample_shot 0 ''a.mp4''), editPrompt := [0x61, 0x20, 0x63, 0x61, 0x74], editType := Some Caption\<rparr>)) = [] \<and>
   Video \<noteq> Caption \<and> regeneration_accepted Video Rejected (Ok ()) \<and>
   shot_polling (handleRegenerate Rejected (Ok ()) Rejected ((sample_editor [sample_shot 0 ''a.mp4''])
       \<lparr>selectedShot := Some (sample_shot 0 ''a.mp4''), editPrompt := [0x61, 0x20, 0x63, 0x61, 0x74], editType := Some Video\<rparr>)) \<and>
   \<not> regeneration_accepted Audio NotOk (Ok ()) \<and>
   live (handleRegenerate NotOk (Ok ()) Rejected ((sample_editor [sample_shot 0 ''a.mp4''])
       \<lparr>selectedShot := Some (sample_shot 0 ''a.mp4''), editPrompt := [0x61, 0x20, 0x63, 0x61, 0x74], editType := Some Audio\<rparr>)) = [] \<and>
   requests (handleGenerateImage (Ok ''img.png'') (Ok (Some [sample_shot 0 ''b.mp4'']))
       ((sample_editor [sample_shot 0 ''a.mp4''])
       \<lparr>selectedShot := Some (sample_shot 0 ''a.mp4''), editPrompt := [0x61, 0x20, 0x63, 0x61, 0x74], editType := Some Image\<rparr>))
     = [PostGenerateImage [0x61, 0x20, 0x63, 0x61, 0x74] ''realistic'', PutUpdateShot ''t1'' 0 ''img.png''] \<and>
   shots (handleGenerateImage (Ok ''img.png'') (Ok (Some [sample_shot 0 ''b.mp4'']))
       ((sample_editor [sample_shot 0 ''a.mp4''])
       \<lparr>selectedShot := Some (sample_shot 0 ''a.mp4''), editPrompt := [0x61, 0x20, 0x63, 0x61, 0x74], editType := Some Image\<rparr>))
     = [sample_shot 0 ''b.mp4''] \<and>
   fetch_failed (NotOk :: string response) \<and>
   toasts (handleGenerateImage NotOk Rejected
       ((sample_editor [sample_shot 0 ''a.mp4''])
       \<lparr>selectedShot := Some (sample_shot 0 ''a.mp4''), editPrompt := [0x61, 0x20, 0x63, 0x61, 0x74], editType := Some Image\<rparr>))
     = [ToastError ''Failed to generate starting image''] \<and>
   selectedShot (sample_editor [sample_shot 0 ''a.mp4'']) = None \<and>
   handleGenerateImage (Ok ''img.png'') Rejected (sample_editor [sample_shot 0 ''a.mp4''])
     = sample_editor [sample_shot 0 ''a.mp4'']"
  using
    edit_polling_by_type[of "Ok ''img.png''" "Ok (Some [sample_shot 0 ''b.mp4''])"
       "(sample_editor [sample_shot 0 ''a.mp4''])
       \<lparr>selectedShot := Some (sample_shot 0 ''a.mp4''), editPrompt := [0x61, 0x20, 0x63, 0x61, 0x74], editType := Some Image\<rparr>"
       "sample_shot 0 ''a.mp4''" Image Rejected Rejected Rejected "''img.png''" "[sample_shot 0 ''b.mp4'']"]
    edit_polling_by_type[of NotOk Rejected
       "(sample_editor [sample_shot 0 ''a.mp4''])
       \<lparr>selectedShot := Some (sample_shot 0 ''a.mp4''), editPrompt := [0x61, 0x20, 0x63, 0x61, 0x74], editType := Some Image\<rparr>"
       "sample_shot 0 ''a.mp4''" Image Rejected Rejected Rejected "''img.png''" "[]"]
    edit_polling_by_type[of "Ok ''img.png''" Rejected "sample_editor [sample_shot 0 ''a.mp4'']"
       "sample_shot 0 ''a.mp4''" Image Rejected Rejected Rejected "''img.png''" "[]"]
    edit_polling_by_type[of Rejected Rejected "(sample_editor [sample_shot 0 ''a.mp4''])
       \<lparr>selectedShot := Some (sample_shot 0 ''a.mp4''), editPrompt := [0x61, 0x20, 0x63, 0x61, 0x74], editType := Some Caption\<rparr>"
       "sample_shot 0 ''a.mp4''" Caption Rejected Rejected "Ok None"]
    edit_polling_by_type[of Rejected Rejected "(sample_editor [sample_shot 0 ''a.mp4''])
       \<lparr>selectedShot := Some (sample_shot 0 ''a.mp4''), editPrompt := [0x61, 0x20, 0x63, 0x61, 0x74], editType := Some Video\<rparr>"
       "sample_shot 0 ''a.mp4''" Video Rejected "Ok ()" Rejected]
    edit_polling_by_type[of Rejected Rejected "(sample_editor [sample_shot 0 ''a.mp4''])
       \<lparr>selectedShot := Some (sample_shot 0 ''a.mp4''), editPrompt := [0x61, 0x20, 0x63, 0x61, 0x74], editType := Some Audio\<rparr>"
       "sample_shot 0 ''a.mp4''" Audio NotOk "Ok ()" Rejected]
  by (simp add: editor_defs handler_defs sample_shot_def)

subsection \<open>Captions\<close>

lemma trim_truthy: "truthy (trim l) \<longleftrightarrow> \<not> blank l"
  by (simp add: truthy_def trim_empty_iff blank_def)

lemma blank_Nil: "blank []"
  by (simp add: blank_def)

text \<open>
  Claim C10. For every text, a sequence of UTF-16 code units, the captions of the
  update request are the lines of the edited text (its pieces between newlines, which
  joined by newlines give the text back) that are not blank, a blank line being one of
  ECMAScript white space and line terminators only; none of them is blank or empty.
\<close>

theorem caption_update_nonblank_lines:
  "newCaptions input = filter (\<lambda>l. \<not> blank l) (split 0x000A input) \<and>
   join 0x000A (split 0x000A input) = input \<and>
   list_all (\<lambda>l. 0x000A \<notin> set l) (split 0x000A input) \<and>
   list_all (\<lambda>caption. \<not> blank caption \<and> caption \<noteq> []) (newCaptions input) \<and>
   (selectedShot s = Some sel \<and> editPrompt s = input \<and> input \<noteq> [] \<longrightarrow>
      requests (handleCaptionUpdate resp s) =
        requests s @ [PutUpdateCaptions (prop_task_id s) (order sel)
                        (filter (\<lambda>l. \<not> blank l) (split 0x000A input))])"
proof -
  have 1: "newCaptions input = filter (\<lambda>l. \<not> blank l) (split 0x000A input)"
    by (simp add: newCaptions_def trim_truthy)
  have 2: "list_all (\<lambda>l. 0x000A \<notin> set l) (split 0x000A input)"
    by (auto simp: list_all_iff dest: split_no_sep)
  have 3: "list_all (\<lambda>caption. \<not> blank caption \<and> caption \<noteq> []) (newCaptions input)"
    unfolding 1 using blank_Nil by (auto simp: list_all_iff)
  have 4: "requests (handleCaptionUpdate resp s) =
        requests s @ [PutUpdateCaptions (prop_task_id s) (order sel)
                        (filter (\<lambda>l. \<not> blank l) (split 0x000A input))]"
    if "selectedShot s = Some sel" "editPrompt s = input" "input \<noteq> []"
    using requests_handleCaptionUpdate[of s sel resp] that 1 by (simp add: truthy_def)
  show ?thesis using 1 2 3 4 join_split[of "0x000A" input] by blast
qed


theorem caption_update_nonblank_lines_witness:
  "selectedShot ((sample_editor [sample_shot 0 ''a.mp4''])
       \<lparr>selectedShot := Some (sample_shot 0 ''a.mp4''), editPrompt := [0x0928, 0x092E, 0x0938, 0x094D, 0x0924, 0x0947, 0x000A, 0x3000, 0x2003, 0x000A, 0x000A, 0x57, 0x6F, 0x72, 0x6C, 0x64, 0x20]\<rparr>)
     = Some (sample_shot 0 ''a.mp4'') \<and>
   ([0x0928, 0x092E, 0x0938, 0x094D, 0x0924, 0x0947, 0x000A, 0x3000, 0x2003, 0x000A, 0x000A, 0x57, 0x6F, 0x72, 0x6C, 0x64, 0x20] :: utf16) \<noteq> [] \<and>
   requests (handleCaptionUpdate (Ok None) ((sample_editor [sample_shot 0 ''a.mp4''])
       \<lparr>selectedShot := Some (sample_shot 0 ''a.mp4''), editPrompt := [0x0928, 0x092E, 0x0938, 0x094D, 0x0924, 0x0947, 0x000A, 0x3000, 0x2003, 0x000A, 0x000A, 0x57, 0x6F, 0x72, 0x6C, 0x64, 0x20]\<rparr>))
     = [PutUpdateCaptions ''t1'' 0 [[0x0928, 0x092E, 0x0938, 0x094D, 0x0924, 0x0947], [0x57, 0x6F, 0x72, 0x6C, 0x64, 0x20]]]"
  using caption_update_nonblank_lines[of "[0x0928, 0x092E, 0x0938, 0x094D, 0x0924, 0x0947, 0x000A, 0x3000, 0x2003, 0x000A, 0x000A, 0x57, 0x6F, 0x72, 0x6C, 0x64, 0x20]" "(sample_editor [sample_shot 0 ''a.mp4''])
       \<lparr>selectedShot := Some (sample_shot 0 ''a.mp4''), editPrompt := [0x0928, 0x092E, 0x0938, 0x094D, 0x0924, 0x0947, 0x000A, 0x3000, 0x2003, 0x000A, 0x000A, 0x57, 0x6F, 0x72, 0x6C, 0x64, 0x20]\<rparr>"
       "sample_shot 0 ''a.mp4''" "Ok None"]
  by (simp add: editor_defs sample_shot_def blank_def is_whitespace_def)

subsection \<open>Shot order\<close>

lemma order_mutate_shot: "order (mutate_shot m sh) = order sh"
  by (cases m) simp_all

lemma map_order_backend_mutate: "map order (backend_mutate n m shs) = map order shs"
  by (simp add: backend_mutate_def order_mutate_shot)

lemma contiguous_backend_mutate: "contiguous_order (backend_mutate n m shs) = contiguous_order shs"
proof -
  have "length (backend_mutate n m shs) = length shs" by (simp add: backend_mutate_def)
  then show ?thesis by (simp add: contiguous_order_def map_order_backend_mutate)
qed

lemma contiguous_nth: "contiguous_order shs \<Longrightarrow> i < length shs \<Longrightarrow> order (shs ! i) = i"
  unfolding contiguous_order_def by (metis add_0 length_map nth_map nth_upt)

text \<open>
  Claim C3. When the order values of the shots are \<open>0, \<dots>, N - 1\<close>, they still are
  after a caption update, after the shot update that follows an image generation and
  after a regeneration status merge, the editor taking the list the back end answers
  with; and the shot at position \<open>i\<close> starts at \<open>order * 5\<close> seconds on the timeline,
  which is the slot of its label, and at frame \<open>i * 150\<close> in the player.
\<close>

theorem shot_order_contiguous_preserved:
  "contiguous_order (shots s) \<and> selectedShot s = Some sel \<and> truthy (editPrompt s) \<longrightarrow>
     contiguous_order (shots (handleCaptionUpdate
        (Ok (Some (backend_mutate (order sel) (CaptionsUpdated (newCaptions (editPrompt s))) (shots s)))) s)) \<and>
     contiguous_order (shots (handleGenerateImage (Ok img)
        (Ok (Some (backend_mutate (order sel) (StartingImageUpdated img) (shots s)))) s)) \<and>
     contiguous_order (shots (checkShotStatus c
        (Ok (Some (backend_mutate n (RegenerationMerged vs as v a) (shots s)))) s)) \<and>
     (\<forall>i<length (shots s).
        timeline_start (shots s ! i) = order (shots s ! i) * 5 \<and>
        timeline_start (shots s ! i) = slot_start i \<and>
        timeline_end (shots s ! i) = slot_end i \<and>
        sequence_from (shots s ! i) = seek_frame (shots s ! i) \<and>
        sequence_from (shots s ! i) = i * sequence_durationInFrames)"
proof (intro impI, elim conjE)
  assume c: "contiguous_order (shots s)" and sel: "selectedShot s = Some sel" and p: "truthy (editPrompt s)"
  have 1: "shots (handleCaptionUpdate (Ok (Some us)) s) = us" for us
    using sel p by (simp add: handleCaptionUpdate_def env_defs Let_def)
  have 2: "shots (handleGenerateImage (Ok img) (Ok (Some us)) s) = us" for us
    using sel p by (simp add: handleGenerateImage_def env_defs Let_def)
  have 3: "shots (checkShotStatus c (Ok (Some us)) s) = us" for us
    by (simp add: checkShotStatus_def env_defs Let_def clear_shot_polling_eq split: option.splits)
  have 4: "timeline_start (shots s ! i) = order (shots s ! i) * 5 \<and>
        timeline_start (shots s ! i) = slot_start i \<and>
        timeline_end (shots s ! i) = slot_end i \<and>
        sequence_from (shots s ! i) = seek_frame (shots s ! i) \<and>
        sequence_from (shots s ! i) = i * sequence_durationInFrames" if "i < length (shots s)" for i
    using contiguous_nth[OF c that]
    by (simp add: timeline_start_def timeline_end_def slot_start_def slot_end_def sequence_from_def
          seek_frame_def sequence_durationInFrames_def)
  have 5: "\<forall>i<length (shots s).
        timeline_start (shots s ! i) = order (shots s ! i) * 5 \<and>
        timeline_start (shots s ! i) = slot_start i \<and>
        timeline_end (shots s ! i) = slot_end i \<and>
        sequence_from (shots s ! i) = seek_frame (shots s ! i) \<and>
        sequence_from (shots s ! i) = i * sequence_durationInFrames"
    using 4 by blast
  have 6: "contiguous_order (shots (handleCaptionUpdate
        (Ok (Some (backend_mutate (order sel) (CaptionsUpdated (newCaptions (editPrompt s))) (shots s)))) s))"
    using c by (simp only: 1 contiguous_backend_mutate)
  have 7: "contiguous_order (shots (handleGenerateImage (Ok img)
        (Ok (Some (backend_mutate (order sel) (StartingImageUpdated img) (shots s)))) s))"
    using c by (simp only: 2 contiguous_backend_mutate)
  have 8: "contiguous_order (shots (checkShotStatus c
        (Ok (Some (backend_mutate n (RegenerationMerged vs as v a) (shots s)))) s))"
    using c by (simp only: 3 contiguous_backend_mutate)
  show "contiguous_order (shots (handleCaptionUpdate
        (Ok (Some (backend_mutate (order sel) (CaptionsUpdated (newCaptions (editPrompt s))) (shots s)))) s)) \<and>
     contiguous_order (shots (handleGenerateImage (Ok img)
        (Ok (Some (backend_mutate (order sel) (StartingImageUpdated img) (shots s)))) s)) \<and>
     contiguous_order (shots (checkShotStatus c
        (Ok (Some (backend_mutate n (RegenerationMerged vs as v a) (shots s)))) s)) \<and>
     (\<forall>i<length (shots s).
        timeline_start (shots s ! i) = order (shots s ! i) * 5 \<and>
        timeline_start (shots s ! i) = slot_start i \<and>
        timeline_end (shots s ! i) = slot_end i \<and>
        sequence_from (shots s ! i) = seek_frame (shots s ! i) \<and>
        sequence_from (shots s ! i) = i * sequence_durationInFrames)"
    using 5 6 7 8 by blast
qed

theorem shot_order_contiguous_preserved_witness:
  "contiguous_order (shots ((sample_editor [sample_shot 0 ''a.mp4'', sample_shot 1 ''b.mp4''])
       \<lparr>selectedShot := Some (sample_shot 1 ''b.mp4''), editPrompt := [0x48, 0x69]\<rparr>)) \<and>
   selectedShot ((sample_editor [sample_shot 0 ''a.mp4'', sample_shot 1 ''b.mp4''])
       \<lparr>selectedShot := Some (sample_shot 1 ''b.mp4''), editPrompt := [0x48, 0x69]\<rparr>) = Some (sample_shot 1 ''b.mp4'') \<and>
   truthy ([0x48, 0x69] :: utf16) \<and>
   map order (shots (handleCaptionUpdate
        (Ok (Some (backend_mutate 1 (CaptionsUpdated (newCaptions [0x48, 0x69]))
            [sample_shot 0 ''a.mp4'', sample_shot 1 ''b.mp4''])))
        ((sample_editor [sample_shot 0 ''a.mp4'', sample_shot 1 ''b.mp4''])
       \<lparr>selectedShot := Some (sample_shot 1 ''b.mp4''), editPrompt := [0x48, 0x69]\<rparr>))) = [0, 1] \<and>
   (1::nat) < length [sample_shot 0 ''a.mp4'', sample_shot 1 ''b.mp4''] \<and>
   timeline_start ([sample_shot 0 ''a.mp4'', sample_shot 1 ''b.mp4''] ! 1) = 5 \<and>
   sequence_from ([sample_shot 0 ''a.mp4'', sample_shot 1 ''b.mp4''] ! 1) = 150"
  using shot_order_contiguous_preserved[of "(sample_editor [sample_shot 0 ''a.mp4'', sample_shot 1 ''b.mp4''])
       \<lparr>selectedShot := Some (sample_shot 1 ''b.mp4''), editPrompt := [0x48, 0x69]\<rparr>" "sample_shot 1 ''b.mp4''"]
  by (simp add: editor_defs handler_defs sample_shot_def contiguous_order_def backend_mutate_def
        newCaptions_def trim_def is_whitespace_def timeline_start_def sequence_from_def upt_rec)

end
